theory Spec2Isabelle
  imports Main "HOL-Library.Word" "HOL-Library.Sublist"
begin

section \<open>The bridge client of unmute-ros: values, connections, tasks\<close>

text \<open>
  The development embeds \<^verbatim>\<open>src/unmute/unmute_ros_bridge_client.py\<close>. The script opens
  two websocket connections (\<^verbatim>\<open>laptop_ws\<close>, \<^verbatim>\<open>unmute_ws\<close>), runs two coroutines that
  copy translated messages from one to the other, and reconnects in an endless loop.

  What \<^verbatim>\<open>json.loads\<close> returns is a value of the following type. A Python \<^verbatim>\<open>dict\<close>
  is kept as the list of its items in insertion order, which is also the order in which
  \<^verbatim>\<open>json.dumps\<close> writes them; a \<^verbatim>\<open>float\<close> is kept as its 64 bits. Payload values are
  only ever copied by the script, never inspected.
\<close>

datatype json =
    JNull
  | JBool bool
  | JInt int
  | JFloat "64 word"
  | JStr string
  | JList "json list"
  | JObj "(string \<times> json) list"

text \<open>
  A frame handed over by \<^verbatim>\<open>async for message in ws\<close>: either text that \<^verbatim>\<open>json.loads\<close>
  rejects, or text that decodes to a value.
\<close>

datatype message = NotJson | Json json

text \<open>The exceptions (all subclasses of \<^verbatim>\<open>Exception\<close>) that the loop bodies can meet.\<close>

datatype py_error =
    JSONDecodeError
  | AttributeError
  | KeyError
  | TypeError
  | ConnectionClosedOK
  | ConnectionClosedError

fun json_loads :: "message \<Rightarrow> py_error + json" where
  "json_loads NotJson = Inl JSONDecodeError"
| "json_loads (Json v) = Inr v"

text \<open>\<^verbatim>\<open>data.get(k)\<close>: only a dict has the method; a missing key gives \<^verbatim>\<open>None\<close>.\<close>

fun dict_get :: "json \<Rightarrow> string \<Rightarrow> py_error + json" where
  "dict_get (JObj d) k = Inr (case map_of d k of None \<Rightarrow> JNull | Some v \<Rightarrow> v)"
| "dict_get _ k = Inl AttributeError"

text \<open>\<^verbatim>\<open>data[k]\<close> with a string key: a missing key raises \<^verbatim>\<open>KeyError\<close>.\<close>

fun getitem :: "json \<Rightarrow> string \<Rightarrow> py_error + json" where
  "getitem (JObj d) k = (case map_of d k of None \<Rightarrow> Inl KeyError | Some v \<Rightarrow> Inr v)"
| "getitem _ k = Inl TypeError"

subsection \<open>The dictionaries built by the two loop bodies\<close>

text \<open>
  Lines 29 to 37: everything \<^verbatim>\<open>forward_audio_to_unmute\<close> does with a message before it
  calls \<^verbatim>\<open>send\<close>. The result is the exception raised, or \<open>None\<close> when the \<^verbatim>\<open>if\<close> is not
  entered, or the dictionary \<^verbatim>\<open>unmute_msg\<close>.
\<close>

definition unmute_msg :: "message \<Rightarrow> py_error + json option" where
  "unmute_msg message =
     (case json_loads message of
        Inl e \<Rightarrow> Inl e
      | Inr data \<Rightarrow>
          (case dict_get data ''type'' of
             Inl e \<Rightarrow> Inl e
           | Inr t \<Rightarrow>
               if t = JStr ''audio'' then
                 (case getitem data ''data'' of
                    Inl e \<Rightarrow> Inl e
                  | Inr a \<Rightarrow>
                      Inr (Some (JObj
                        [(''type'', JStr ''unmute.input_audio_buffer.append_pcm''),
                         (''audio'', a),
                         (''format'', JStr ''int16'')])))
               else Inr None))"

text \<open>
  Lines 46 to 64: the same for \<^verbatim>\<open>forward_response_to_laptop\<close> and its dictionary
  \<^verbatim>\<open>payload\<close>, with the \<^verbatim>\<open>if\<close>/\<^verbatim>\<open>elif\<close> in the order of the source.
\<close>

definition payload :: "message \<Rightarrow> py_error + json option" where
  "payload message =
     (case json_loads message of
        Inl e \<Rightarrow> Inl e
      | Inr data \<Rightarrow>
          (case dict_get data ''type'' of
             Inl e \<Rightarrow> Inl e
           | Inr msg_type \<Rightarrow>
               if msg_type = JStr ''response.audio.delta'' then
                 (case getitem data ''delta'' of
                    Inl e \<Rightarrow> Inl e
                  | Inr a \<Rightarrow>
                      Inr (Some (JObj
                        [(''type'', JStr ''robot.voice_audio''),
                         (''audio'', a)])))
               else if msg_type = JStr ''response.text.delta'' then
                 (case getitem data ''delta'' of
                    Inl e \<Rightarrow> Inl e
                  | Inr a \<Rightarrow>
                      Inr (Some (JObj
                        [(''type'', JStr ''robot.text''),
                         (''text'', a)])))
               else Inr None))"

subsection \<open>Connections and the session\<close>

datatype close_code = CloseOK | CloseError

datatype conn_state = OPEN | CLOSED close_code

text \<open>
  A websocket as the script uses it: whether it is still open, and the frames written to
  it so far, oldest first (each one the \<^verbatim>\<open>json.dumps\<close> of the recorded value).
\<close>

record ws =
  state :: conn_state
  sent :: "json list"

fun connection_closed :: "close_code \<Rightarrow> py_error" where
  "connection_closed CloseOK = ConnectionClosedOK"
| "connection_closed CloseError = ConnectionClosedError"

text \<open>\<^verbatim>\<open>await ws.send(json.dumps(v))\<close>: raises on a connection that is no longer open.\<close>

definition send :: "ws \<Rightarrow> json \<Rightarrow> py_error + ws" where
  "send w v =
     (case state w of
        OPEN \<Rightarrow> Inr (w\<lparr>sent := sent w @ [v]\<rparr>)
      | CLOSED c \<Rightarrow> Inl (connection_closed c))"

text \<open>A coroutine handed to \<^verbatim>\<open>asyncio.gather\<close>: still running, returned, or raised.\<close>

datatype task = Running | Returned | Raised py_error

datatype log_entry =
    ErrorForwardingAudio py_error
  | ErrorForwardingResponse py_error

record session =
  laptop_ws :: ws
  unmute_ws :: ws
  audio_task :: task
  response_task :: task
  logged :: "log_entry list"

text \<open>
  Lines 28 to 40: one turn of the loop of \<^verbatim>\<open>forward_audio_to_unmute\<close> for a received
  message. The \<^verbatim>\<open>try\<close> covers the decoding, the dictionary and the \<^verbatim>\<open>send\<close>; its
  \<^verbatim>\<open>except Exception\<close> logs the error and falls through to the next turn.
\<close>

definition forward_audio_to_unmute :: "session \<Rightarrow> message \<Rightarrow> session" where
  "forward_audio_to_unmute s message =
     (case unmute_msg message of
        Inl e \<Rightarrow> s\<lparr>logged := logged s @ [ErrorForwardingAudio e]\<rparr>
      | Inr None \<Rightarrow> s
      | Inr (Some v) \<Rightarrow>
          (case send (unmute_ws s) v of
             Inl e \<Rightarrow> s\<lparr>logged := logged s @ [ErrorForwardingAudio e]\<rparr>
           | Inr w \<Rightarrow> s\<lparr>unmute_ws := w\<rparr>))"

text \<open>Lines 45 to 70: one turn of the loop of \<^verbatim>\<open>forward_response_to_laptop\<close>.\<close>

definition forward_response_to_laptop :: "session \<Rightarrow> message \<Rightarrow> session" where
  "forward_response_to_laptop s message =
     (case payload message of
        Inl e \<Rightarrow> s\<lparr>logged := logged s @ [ErrorForwardingResponse e]\<rparr>
      | Inr None \<Rightarrow> s
      | Inr (Some v) \<Rightarrow>
          (case send (laptop_ws s) v of
             Inl e \<Rightarrow> s\<lparr>logged := logged s @ [ErrorForwardingResponse e]\<rparr>
           | Inr w \<Rightarrow> s\<lparr>laptop_ws := w\<rparr>))"

text \<open>
  How \<^verbatim>\<open>async for message in ws\<close> ends when the connection closes: the iterator of the
  websockets library swallows \<^verbatim>\<open>ConnectionClosedOK\<close>, so the coroutine returns; any other
  close raises \<^verbatim>\<open>ConnectionClosedError\<close> outside the \<^verbatim>\<open>try\<close>, so the coroutine raises.
\<close>

fun async_for_end :: "close_code \<Rightarrow> task" where
  "async_for_end CloseOK = Returned"
| "async_for_end CloseError = Raised ConnectionClosedError"

text \<open>
  Lines 73 to 76, \<^verbatim>\<open>await asyncio.gather(a, b)\<close> without \<^verbatim>\<open>return_exceptions\<close>: the
  first exception of either coroutine is raised at once; otherwise the call returns when
  both have returned.
\<close>

fun gather :: "task \<Rightarrow> task \<Rightarrow> task" where
  "gather (Raised e) b = Raised e"
| "gather a (Raised e) = Raised e"
| "gather Returned Returned = Returned"
| "gather a b = Running"

text \<open>
  What happens to a session, in the order in which the event loop handles it: a message
  arrives on one of the two connections, or one of them closes.
\<close>

datatype side = Laptop | Unmute

datatype event = Message side message | Close side close_code

fun step :: "session \<Rightarrow> event \<Rightarrow> session" where
  "step s (Message Laptop m) =
     (if audio_task s = Running \<and> state (laptop_ws s) = OPEN
      then forward_audio_to_unmute s m else s)"
| "step s (Message Unmute m) =
     (if response_task s = Running \<and> state (unmute_ws s) = OPEN
      then forward_response_to_laptop s m else s)"
| "step s (Close Laptop c) =
     (if state (laptop_ws s) = OPEN
      then s\<lparr>laptop_ws := (laptop_ws s)\<lparr>state := CLOSED c\<rparr>,
             audio_task := (if audio_task s = Running then async_for_end c else audio_task s)\<rparr>
      else s)"
| "step s (Close Unmute c) =
     (if state (unmute_ws s) = OPEN
      then s\<lparr>unmute_ws := (unmute_ws s)\<lparr>state := CLOSED c\<rparr>,
             response_task :=
               (if response_task s = Running then async_for_end c else response_task s)\<rparr>
      else s)"

text \<open>
  The session handles the events that reach it, in order. Each loop takes part while it
  is running and its own source is open (the guards of \<open>step\<close>); \<^verbatim>\<open>gather\<close> cancels
  neither when the other one ends, so a loop whose sibling has raised goes on receiving
  until its source is closed. The list holds the events that arrive before leaving the two
  \<^verbatim>\<open>async with\<close> blocks has closed the connections.
\<close>

fun run :: "session \<Rightarrow> event list \<Rightarrow> session" where
  "run s [] = s"
| "run s (e # es) = run (step s e) es"

text \<open>Line 23, "Bridge is active": both connections open, both coroutines started.\<close>

definition bridge_active :: session where
  "bridge_active =
     \<lparr>laptop_ws = \<lparr>state = OPEN, sent = []\<rparr>,
      unmute_ws = \<lparr>state = OPEN, sent = []\<rparr>,
      audio_task = Running,
      response_task = Running,
      logged = []\<rparr>"

definition relay :: "event list \<Rightarrow> session" where
  "relay evs = run bridge_active evs"

subsection \<open>The reconnect loop\<close>

text \<open>
  One pass through the body of \<^verbatim>\<open>while True\<close> (lines 16 to 81), as the environment
  decides it: the first \<^verbatim>\<open>connect\<close> raises, or the second one does, or both succeed and
  the session meets the given events.
\<close>

datatype attempt = LaptopConnectFails | UnmuteConnectFails | BridgeActive "event list"

datatype action = Connect side | CloseWs side | Sleep nat

text \<open>
  The trace of \<^verbatim>\<open>run_bridge\<close>. Leaving an \<^verbatim>\<open>async with\<close> closes its connection, the inner
  one first. Only the \<^verbatim>\<open>except Exception\<close> branch sleeps. A session whose \<^verbatim>\<open>gather\<close> is
  still pending keeps the loop waiting, so the trace stops there.
\<close>

fun run_bridge :: "attempt list \<Rightarrow> action list" where
  "run_bridge [] = []"
| "run_bridge (LaptopConnectFails # as) =
     [Connect Laptop, Sleep 3] @ run_bridge as"
| "run_bridge (UnmuteConnectFails # as) =
     [Connect Laptop, Connect Unmute, CloseWs Laptop, Sleep 3] @ run_bridge as"
| "run_bridge (BridgeActive evs # as) =
     [Connect Laptop, Connect Unmute] @
     (case gather (audio_task (relay evs)) (response_task (relay evs)) of
        Running \<Rightarrow> []
      | Returned \<Rightarrow> [CloseWs Unmute, CloseWs Laptop] @ run_bridge as
      | Raised e \<Rightarrow> [CloseWs Unmute, CloseWs Laptop, Sleep 3] @ run_bridge as)"

subsection \<open>Vocabulary of the statements\<close>

text \<open>The messages that arrive from one side, in the order of the events.\<close>

fun received :: "side \<Rightarrow> event list \<Rightarrow> message list" where
  "received sd [] = []"
| "received sd (Message sd' m # es) =
     (if sd' = sd then m # received sd es else received sd es)"
| "received sd (Close sd' c # es) = received sd es"

fun is_close :: "event \<Rightarrow> bool" where
  "is_close (Close sd c) = True"
| "is_close (Message sd m) = False"

text \<open>The dictionary that a turn of a loop hands to \<^verbatim>\<open>send\<close>, if it gets that far.\<close>

fun translated :: "py_error + json option \<Rightarrow> json option" where
  "translated (Inr (Some v)) = Some v"
| "translated (Inr None) = None"
| "translated (Inl e) = None"

text \<open>The field names of a dictionary, in order.\<close>

fun fields :: "json \<Rightarrow> string list" where
  "fields (JObj d) = map fst d"
| "fields _ = []"

definition append_pcm_envelope :: "json \<Rightarrow> bool" where
  "append_pcm_envelope v \<longleftrightarrow>
     fields v = [''type'', ''audio'', ''format''] \<and>
     dict_get v ''type'' = Inr (JStr ''unmute.input_audio_buffer.append_pcm'')"

definition robot_envelope :: "json \<Rightarrow> bool" where
  "robot_envelope v \<longleftrightarrow>
     fields v = [''type'', ''audio''] \<and> dict_get v ''type'' = Inr (JStr ''robot.voice_audio'') \<or>
     fields v = [''type'', ''text''] \<and> dict_get v ''type'' = Inr (JStr ''robot.text'')"

text \<open>A session in which both connections are open and both coroutines run.\<close>

definition live :: "session \<Rightarrow> bool" where
  "live s \<longleftrightarrow> state (laptop_ws s) = OPEN \<and> state (unmute_ws s) = OPEN \<and>
     audio_task s = Running \<and> response_task s = Running"

text \<open>
  The time slept before each connect attempt of a trace: one entry for each
  \<open>Connect Laptop\<close> (the first statement of a pass through the reconnect loop), holding
  the sum of the sleeps since the previous one.
\<close>

fun waits :: "nat \<Rightarrow> action list \<Rightarrow> nat list" where
  "waits acc [] = []"
| "waits acc (Connect Laptop # tr) = acc # waits 0 tr"
| "waits acc (Sleep n # tr) = waits (acc + n) tr"
| "waits acc (Connect Unmute # tr) = waits acc tr"
| "waits acc (CloseWs sd # tr) = waits acc tr"

text \<open>How a pass through the reconnect loop ends, if it ends.\<close>

fun ends_with_exception :: "attempt \<Rightarrow> bool" where
  "ends_with_exception LaptopConnectFails = True"
| "ends_with_exception UnmuteConnectFails = True"
| "ends_with_exception (BridgeActive evs) =
     (case gather (audio_task (relay evs)) (response_task (relay evs)) of
        Raised e \<Rightarrow> True
      | Returned \<Rightarrow> False
      | Running \<Rightarrow> False)"

text \<open>A pass that ends at all, by an exception or by \<^verbatim>\<open>gather\<close> returning.\<close>

fun attempt_ends :: "attempt \<Rightarrow> bool" where
  "attempt_ends LaptopConnectFails = True"
| "attempt_ends UnmuteConnectFails = True"
| "attempt_ends (BridgeActive evs) =
     (gather (audio_task (relay evs)) (response_task (relay evs)) \<noteq> Running)"

section \<open>Properties of the translation\<close>

subsection \<open>Helper facts about the two loop bodies\<close>

lemma unmute_msg_audio:
  "map_of d ''type'' = Some (JStr ''audio'') \<Longrightarrow> map_of d ''data'' = Some x \<Longrightarrow>
   unmute_msg (Json (JObj d)) =
     Inr (Some (JObj [(''type'', JStr ''unmute.input_audio_buffer.append_pcm''),
                      (''audio'', x), (''format'', JStr ''int16'')]))"
  by (simp add: unmute_msg_def)

lemma payload_audio_delta:
  "map_of d ''type'' = Some (JStr ''response.audio.delta'') \<Longrightarrow> map_of d ''delta'' = Some y \<Longrightarrow>
   payload (Json (JObj d)) =
     Inr (Some (JObj [(''type'', JStr ''robot.voice_audio''), (''audio'', y)]))"
  by (simp add: payload_def)

lemma payload_text_delta:
  "map_of d ''type'' = Some (JStr ''response.text.delta'') \<Longrightarrow> map_of d ''delta'' = Some z \<Longrightarrow>
   payload (Json (JObj d)) =
     Inr (Some (JObj [(''type'', JStr ''robot.text''), (''text'', z)]))"
  by (simp add: payload_def)

lemma forward_audio_sends:
  "unmute_msg m = Inr (Some v) \<Longrightarrow> state (unmute_ws s) = OPEN \<Longrightarrow>
   forward_audio_to_unmute s m = s\<lparr>unmute_ws := (unmute_ws s)\<lparr>sent := sent (unmute_ws s) @ [v]\<rparr>\<rparr>"
  by (simp add: forward_audio_to_unmute_def send_def)

lemma forward_response_sends:
  "payload m = Inr (Some v) \<Longrightarrow> state (laptop_ws s) = OPEN \<Longrightarrow>
   forward_response_to_laptop s m = s\<lparr>laptop_ws := (laptop_ws s)\<lparr>sent := sent (laptop_ws s) @ [v]\<rparr>\<rparr>"
  by (simp add: forward_response_to_laptop_def send_def)

subsection \<open>The recognised mappings\<close>

text \<open>
  Claim C1. The three recognised mappings: an inbound dictionary of type \<^verbatim>\<open>audio\<close> with
  field \<^verbatim>\<open>data = x\<close> yields the dictionary
  \<^verbatim>\<open>{type: unmute.input_audio_buffer.append_pcm, audio: x, format: int16}\<close>, and on a live
  session exactly that one frame is appended to what was sent to Unmute; an inbound
  \<^verbatim>\<open>response.audio.delta\<close> with \<^verbatim>\<open>delta = y\<close> yields exactly
  \<^verbatim>\<open>{type: robot.voice_audio, audio: y}\<close>, and an inbound \<^verbatim>\<open>response.text.delta\<close> with
  \<^verbatim>\<open>delta = z\<close> yields exactly \<^verbatim>\<open>{type: robot.text, text: z}\<close>, each appended as one
  frame to what was sent to the laptop.
\<close>

theorem recognized_mappings:
  "(map_of da ''type'' = Some (JStr ''audio'') \<and> map_of da ''data'' = Some x \<longrightarrow>
      unmute_msg (Json (JObj da)) =
        Inr (Some (JObj [(''type'', JStr ''unmute.input_audio_buffer.append_pcm''),
                         (''audio'', x), (''format'', JStr ''int16'')])) \<and>
      (audio_task s = Running \<and> state (laptop_ws s) = OPEN \<and> state (unmute_ws s) = OPEN \<longrightarrow>
         step s (Message Laptop (Json (JObj da))) =
           s\<lparr>unmute_ws := (unmute_ws s)\<lparr>sent := sent (unmute_ws s) @
             [JObj [(''type'', JStr ''unmute.input_audio_buffer.append_pcm''),
                    (''audio'', x), (''format'', JStr ''int16'')]]\<rparr>\<rparr>)) \<and>
   (map_of dv ''type'' = Some (JStr ''response.audio.delta'') \<and> map_of dv ''delta'' = Some y \<longrightarrow>
      payload (Json (JObj dv)) =
        Inr (Some (JObj [(''type'', JStr ''robot.voice_audio''), (''audio'', y)])) \<and>
      (response_task s = Running \<and> state (unmute_ws s) = OPEN \<and> state (laptop_ws s) = OPEN \<longrightarrow>
         step s (Message Unmute (Json (JObj dv))) =
           s\<lparr>laptop_ws := (laptop_ws s)\<lparr>sent := sent (laptop_ws s) @
             [JObj [(''type'', JStr ''robot.voice_audio''), (''audio'', y)]]\<rparr>\<rparr>)) \<and>
   (map_of dt ''type'' = Some (JStr ''response.text.delta'') \<and> map_of dt ''delta'' = Some z \<longrightarrow>
      payload (Json (JObj dt)) =
        Inr (Some (JObj [(''type'', JStr ''robot.text''), (''text'', z)])) \<and>
      (response_task s = Running \<and> state (unmute_ws s) = OPEN \<and> state (laptop_ws s) = OPEN \<longrightarrow>
         step s (Message Unmute (Json (JObj dt))) =
           s\<lparr>laptop_ws := (laptop_ws s)\<lparr>sent := sent (laptop_ws s) @
             [JObj [(''type'', JStr ''robot.text''), (''text'', z)]]\<rparr>\<rparr>))"
  by (simp add: unmute_msg_audio payload_audio_delta payload_text_delta
        forward_audio_sends forward_response_sends)

theorem recognized_mappings_witness:
  "step bridge_active
     (Message Laptop (Json (JObj [(''type'', JStr ''audio''), (''data'', JStr ''AAEC''), (''seq'', JInt 7)]))) =
     bridge_active\<lparr>unmute_ws := \<lparr>state = OPEN, sent =
       [JObj [(''type'', JStr ''unmute.input_audio_buffer.append_pcm''),
              (''audio'', JStr ''AAEC''), (''format'', JStr ''int16'')]]\<rparr>\<rparr> \<and>
   step bridge_active
     (Message Unmute (Json (JObj [(''type'', JStr ''response.audio.delta''), (''delta'', JStr ''T2dn'')]))) =
     bridge_active\<lparr>laptop_ws := \<lparr>state = OPEN, sent =
       [JObj [(''type'', JStr ''robot.voice_audio''), (''audio'', JStr ''T2dn'')]]\<rparr>\<rparr> \<and>
   step bridge_active
     (Message Unmute (Json (JObj [(''delta'', JStr ''Hi''), (''type'', JStr ''response.text.delta'')]))) =
     bridge_active\<lparr>laptop_ws := \<lparr>state = OPEN, sent =
       [JObj [(''type'', JStr ''robot.text''), (''text'', JStr ''Hi'')]]\<rparr>\<rparr>"
  using recognized_mappings
    [of "[(''type'', JStr ''audio''), (''data'', JStr ''AAEC''), (''seq'', JInt 7)]" "JStr ''AAEC''"
        bridge_active
        "[(''type'', JStr ''response.audio.delta''), (''delta'', JStr ''T2dn'')]" "JStr ''T2dn''"
        "[(''delta'', JStr ''Hi''), (''type'', JStr ''response.text.delta'')]" "JStr ''Hi''"]
  by (simp add: bridge_active_def)

lemma run_skip:
  "step s e = s \<Longrightarrow> run s (e # es) = run s es"
  by simp

lemma unmute_msg_other:
  "map_of d ''type'' \<noteq> Some (JStr ''audio'') \<Longrightarrow> unmute_msg (Json (JObj d)) = Inr None"
  by (auto simp: unmute_msg_def split: option.splits)

lemma payload_other:
  "map_of d ''type'' \<noteq> Some (JStr ''response.audio.delta'') \<Longrightarrow>
   map_of d ''type'' \<noteq> Some (JStr ''response.text.delta'') \<Longrightarrow>
   payload (Json (JObj d)) = Inr None"
  by (auto simp: payload_def split: option.splits)

lemma forward_audio_none:
  "unmute_msg m = Inr None \<Longrightarrow> forward_audio_to_unmute s m = s"
  by (simp add: forward_audio_to_unmute_def)

lemma forward_response_none:
  "payload m = Inr None \<Longrightarrow> forward_response_to_laptop s m = s"
  by (simp add: forward_response_to_laptop_def)

lemma forward_audio_error:
  "unmute_msg m = Inl e \<Longrightarrow>
   forward_audio_to_unmute s m = s\<lparr>logged := logged s @ [ErrorForwardingAudio e]\<rparr>"
  by (simp add: forward_audio_to_unmute_def)

lemma forward_response_error:
  "payload m = Inl e \<Longrightarrow>
   forward_response_to_laptop s m = s\<lparr>logged := logged s @ [ErrorForwardingResponse e]\<rparr>"
  by (simp add: forward_response_to_laptop_def)

subsection \<open>Unrecognised types\<close>

text \<open>
  Claim C2. An inbound dictionary whose \<^verbatim>\<open>type\<close> is not \<^verbatim>\<open>audio\<close> (on the laptop side),
  or neither \<^verbatim>\<open>response.audio.delta\<close> nor \<^verbatim>\<open>response.text.delta\<close> (on the Unmute side),
  yields no outbound dictionary; the turn of the loop leaves the whole session as it was
  (no frame sent, nothing logged, both coroutines as before), and the session goes on with
  the events that follow as if the message had not come.
\<close>

theorem unrecognized_dropped:
  "(map_of d ''type'' \<noteq> Some (JStr ''audio'') \<longrightarrow>
      unmute_msg (Json (JObj d)) = Inr None \<and>
      step s (Message Laptop (Json (JObj d))) = s \<and>
      run s (Message Laptop (Json (JObj d)) # es) = run s es) \<and>
   (map_of d ''type'' \<noteq> Some (JStr ''response.audio.delta'') \<and>
    map_of d ''type'' \<noteq> Some (JStr ''response.text.delta'') \<longrightarrow>
      payload (Json (JObj d)) = Inr None \<and>
      step s (Message Unmute (Json (JObj d))) = s \<and>
      run s (Message Unmute (Json (JObj d)) # es) = run s es)"
proof -
  have a: "step s (Message Laptop (Json (JObj d))) = s"
    if "map_of d ''type'' \<noteq> Some (JStr ''audio'')"
    using that by (simp add: unmute_msg_other forward_audio_none)
  have b: "step s (Message Unmute (Json (JObj d))) = s"
    if "map_of d ''type'' \<noteq> Some (JStr ''response.audio.delta'')"
       "map_of d ''type'' \<noteq> Some (JStr ''response.text.delta'')"
    using that by (simp add: payload_other forward_response_none)
  show ?thesis
    using a b run_skip [of s "Message Laptop (Json (JObj d))" es]
      run_skip [of s "Message Unmute (Json (JObj d))" es]
      unmute_msg_other [of d] payload_other [of d]
    by blast
qed

theorem unrecognized_dropped_witness:
  "unmute_msg (Json (JObj [(''type'', JStr ''response.text.delta''), (''delta'', JStr ''Hi'')])) = Inr None \<and>
   run bridge_active
     [Message Laptop (Json (JObj [(''type'', JStr ''response.text.delta''), (''delta'', JStr ''Hi'')])),
      Message Unmute (Json (JObj [(''type'', JStr ''response.text.delta''), (''delta'', JStr ''Hi'')]))] =
   run bridge_active
     [Message Unmute (Json (JObj [(''type'', JStr ''response.text.delta''), (''delta'', JStr ''Hi'')]))] \<and>
   payload (Json (JObj [(''type'', JStr ''audio''), (''data'', JStr ''AAEC'')])) = Inr None \<and>
   step bridge_active (Message Unmute (Json (JObj [(''type'', JStr ''audio''), (''data'', JStr ''AAEC'')]))) =
     bridge_active"
  using
    unrecognized_dropped
      [of "[(''type'', JStr ''response.text.delta''), (''delta'', JStr ''Hi'')]" bridge_active
          "[Message Unmute (Json (JObj [(''type'', JStr ''response.text.delta''), (''delta'', JStr ''Hi'')]))]"]
    unrecognized_dropped
      [of "[(''type'', JStr ''audio''), (''data'', JStr ''AAEC'')]" bridge_active "[]"]
  by simp

lemma unmute_msg_missing:
  "map_of d ''type'' = Some (JStr ''audio'') \<Longrightarrow> map_of d ''data'' = None \<Longrightarrow>
   unmute_msg (Json (JObj d)) = Inl KeyError"
  by (simp add: unmute_msg_def)

lemma payload_missing:
  "map_of d ''type'' = Some (JStr ''response.audio.delta'') \<or>
   map_of d ''type'' = Some (JStr ''response.text.delta'') \<Longrightarrow> map_of d ''delta'' = None \<Longrightarrow>
   payload (Json (JObj d)) = Inl KeyError"
  by (auto simp: payload_def)

subsection \<open>Recognised types without their source field\<close>

text \<open>
  Claim C3. An inbound dictionary of a recognised type that lacks the source field of its
  mapping (\<^verbatim>\<open>data\<close> for \<^verbatim>\<open>audio\<close>, \<^verbatim>\<open>delta\<close> for the two delta types) fails with
  \<^verbatim>\<open>KeyError\<close> inside the \<^verbatim>\<open>try\<close>; the error is logged, and the session is otherwise
  unchanged: nothing is sent to the destination and both coroutines keep running.
\<close>

theorem missing_field_dropped:
  "(map_of d ''type'' = Some (JStr ''audio'') \<and> map_of d ''data'' = None \<and>
    audio_task s = Running \<and> state (laptop_ws s) = OPEN \<longrightarrow>
      unmute_msg (Json (JObj d)) = Inl KeyError \<and>
      step s (Message Laptop (Json (JObj d))) =
        s\<lparr>logged := logged s @ [ErrorForwardingAudio KeyError]\<rparr>) \<and>
   ((map_of d ''type'' = Some (JStr ''response.audio.delta'') \<or>
     map_of d ''type'' = Some (JStr ''response.text.delta'')) \<and> map_of d ''delta'' = None \<and>
    response_task s = Running \<and> state (unmute_ws s) = OPEN \<longrightarrow>
      payload (Json (JObj d)) = Inl KeyError \<and>
      step s (Message Unmute (Json (JObj d))) =
        s\<lparr>logged := logged s @ [ErrorForwardingResponse KeyError]\<rparr>)"
  by (auto simp: unmute_msg_missing payload_missing forward_audio_error forward_response_error)

theorem missing_field_dropped_witness:
  "run bridge_active
     [Message Laptop (Json (JObj [(''type'', JStr ''audio'')])),
      Message Unmute (Json (JObj [(''type'', JStr ''response.text.delta''), (''text'', JStr ''Hi'')])),
      Message Laptop (Json (JObj [(''type'', JStr ''audio''), (''data'', JStr ''AAEC'')]))] =
   bridge_active
     \<lparr>unmute_ws := \<lparr>state = OPEN, sent =
        [JObj [(''type'', JStr ''unmute.input_audio_buffer.append_pcm''),
               (''audio'', JStr ''AAEC''), (''format'', JStr ''int16'')]]\<rparr>,
      logged := [ErrorForwardingAudio KeyError, ErrorForwardingResponse KeyError]\<rparr>"
  using
    missing_field_dropped [of "[(''type'', JStr ''audio'')]" bridge_active]
    missing_field_dropped
      [of "[(''type'', JStr ''response.text.delta''), (''text'', JStr ''Hi'')]"
          "bridge_active\<lparr>logged := [ErrorForwardingAudio KeyError]\<rparr>"]
  by (simp add: bridge_active_def forward_audio_to_unmute_def unmute_msg_def send_def)

subsection \<open>The output depends on the type and the mapped field only\<close>

text \<open>
  Claim C10. Two inbound dictionaries with the same \<^verbatim>\<open>type\<close> and the same mapped
  field (\<^verbatim>\<open>data\<close> on the laptop side, \<^verbatim>\<open>delta\<close> on the Unmute side) give the same
  result, whatever other fields they carry: the same outbound dictionary (or the same
  error, or none), and the same effect of the turn of the loop on any session.
\<close>

theorem translation_deterministic:
  "(map_of d1 ''type'' = map_of d2 ''type'' \<and> map_of d1 ''data'' = map_of d2 ''data'' \<longrightarrow>
      unmute_msg (Json (JObj d1)) = unmute_msg (Json (JObj d2)) \<and>
      forward_audio_to_unmute s (Json (JObj d1)) = forward_audio_to_unmute s (Json (JObj d2))) \<and>
   (map_of d1 ''type'' = map_of d2 ''type'' \<and> map_of d1 ''delta'' = map_of d2 ''delta'' \<longrightarrow>
      payload (Json (JObj d1)) = payload (Json (JObj d2)) \<and>
      forward_response_to_laptop s (Json (JObj d1)) = forward_response_to_laptop s (Json (JObj d2)))"
  by (simp add: unmute_msg_def payload_def forward_audio_to_unmute_def forward_response_to_laptop_def)

theorem translation_deterministic_witness:
  "unmute_msg (Json (JObj [(''type'', JStr ''audio''), (''data'', JStr ''AAEC''), (''format'', JStr ''f32'')])) =
   unmute_msg (Json (JObj [(''seq'', JInt 4), (''data'', JStr ''AAEC''), (''type'', JStr ''audio'')])) \<and>
   payload (Json (JObj [(''type'', JStr ''response.text.delta''), (''delta'', JStr ''Hi''), (''text'', JStr ''No'')])) =
   payload (Json (JObj [(''delta'', JStr ''Hi''), (''type'', JStr ''response.text.delta'')]))"
  using
    translation_deterministic
      [of "[(''type'', JStr ''audio''), (''data'', JStr ''AAEC''), (''format'', JStr ''f32'')]"
          "[(''seq'', JInt 4), (''data'', JStr ''AAEC''), (''type'', JStr ''audio'')]"]
    translation_deterministic
      [of "[(''type'', JStr ''response.text.delta''), (''delta'', JStr ''Hi''), (''text'', JStr ''No'')]"
          "[(''delta'', JStr ''Hi''), (''type'', JStr ''response.text.delta'')]"]
  by simp

subsection \<open>Frame lemmas for the session\<close>

lemma run_append: "run s (xs @ ys) = run (run s xs) ys"
  by (induction xs arbitrary: s) simp_all

lemma forward_audio_frame:
  "laptop_ws (forward_audio_to_unmute s m) = laptop_ws s"
  "audio_task (forward_audio_to_unmute s m) = audio_task s"
  "response_task (forward_audio_to_unmute s m) = response_task s"
  "state (unmute_ws (forward_audio_to_unmute s m)) = state (unmute_ws s)"
  by (auto simp: forward_audio_to_unmute_def send_def
      split: sum.splits option.splits conn_state.splits)

lemma forward_response_frame:
  "unmute_ws (forward_response_to_laptop s m) = unmute_ws s"
  "audio_task (forward_response_to_laptop s m) = audio_task s"
  "response_task (forward_response_to_laptop s m) = response_task s"
  "state (laptop_ws (forward_response_to_laptop s m)) = state (laptop_ws s)"
  by (auto simp: forward_response_to_laptop_def send_def
      split: sum.splits option.splits conn_state.splits)

lemma forward_audio_sent:
  "sent (unmute_ws (forward_audio_to_unmute s m)) =
   sent (unmute_ws s) @
     (if state (unmute_ws s) = OPEN
      then (case translated (unmute_msg m) of None \<Rightarrow> [] | Some v \<Rightarrow> [v]) else [])"
  by (auto simp: forward_audio_to_unmute_def send_def
      split: sum.splits option.splits conn_state.splits)

lemma forward_response_sent:
  "sent (laptop_ws (forward_response_to_laptop s m)) =
   sent (laptop_ws s) @
     (if state (laptop_ws s) = OPEN
      then (case translated (payload m) of None \<Rightarrow> [] | Some v \<Rightarrow> [v]) else [])"
  by (auto simp: forward_response_to_laptop_def send_def
      split: sum.splits option.splits conn_state.splits)

lemma step_message_tasks:
  "audio_task (step s (Message sd m)) = audio_task s"
  "response_task (step s (Message sd m)) = response_task s"
  by (cases sd; simp add: forward_audio_frame forward_response_frame)+

lemma step_message_states:
  "state (laptop_ws (step s (Message sd m))) = state (laptop_ws s)"
  "state (unmute_ws (step s (Message sd m))) = state (unmute_ws s)"
  by (cases sd; simp add: forward_audio_frame forward_response_frame)+

lemma step_close_sent:
  "sent (laptop_ws (step s (Close sd c))) = sent (laptop_ws s)"
  "sent (unmute_ws (step s (Close sd c))) = sent (unmute_ws s)"
  by (cases sd; simp)+

text \<open>Every frame sent to Unmute during a run comes, in order, from the laptop's messages.\<close>

lemma run_sent_unmute:
  "\<exists>ys. sent (unmute_ws (run s evs)) = sent (unmute_ws s) @ ys \<and>
        subseq ys (List.map_filter (\<lambda>m. translated (unmute_msg m)) (received Laptop evs))"
proof (induction evs arbitrary: s)
  case Nil
  show ?case by simp
next
  case (Cons e evs)
  show ?case
  proof -
    obtain ys where ys: "sent (unmute_ws (run (step s e) evs)) = sent (unmute_ws (step s e)) @ ys"
      "subseq ys (List.map_filter (\<lambda>m. translated (unmute_msg m)) (received Laptop evs))"
      using Cons.IH [of "step s e"] by blast
    show ?thesis
    proof (cases e)
      case (Close sd c)
      with ys show ?thesis by (simp add: step_close_sent)
    next
      case (Message sd m)
      show ?thesis
      proof (cases sd)
        case Unmute
        with Message ys show ?thesis
          by (simp add: forward_response_frame)
      next
        case Laptop
        let ?zs = "if audio_task s = Running \<and> state (laptop_ws s) = OPEN \<and> state (unmute_ws s) = OPEN
                   then (case translated (unmute_msg m) of None \<Rightarrow> [] | Some v \<Rightarrow> [v]) else []"
        have st: "sent (unmute_ws (step s e)) = sent (unmute_ws s) @ ?zs"
          using Message Laptop by (simp add: forward_audio_sent)
        have sub: "subseq (?zs @ ys)
           (List.map_filter (\<lambda>m. translated (unmute_msg m)) (received Laptop (e # evs)))"
          using ys(2) Message Laptop
          by (auto simp: List.map_filter_simps split: option.splits)
        show ?thesis
          using ys(1) st sub by (intro exI [of _ "?zs @ ys"]) simp
      qed
    qed
  qed
qed

text \<open>The same for the frames sent to the laptop.\<close>

lemma run_sent_laptop:
  "\<exists>ys. sent (laptop_ws (run s evs)) = sent (laptop_ws s) @ ys \<and>
        subseq ys (List.map_filter (\<lambda>m. translated (payload m)) (received Unmute evs))"
proof (induction evs arbitrary: s)
  case Nil
  show ?case by simp
next
  case (Cons e evs)
  show ?case
  proof -
    obtain ys where ys: "sent (laptop_ws (run (step s e) evs)) = sent (laptop_ws (step s e)) @ ys"
      "subseq ys (List.map_filter (\<lambda>m. translated (payload m)) (received Unmute evs))"
      using Cons.IH [of "step s e"] by blast
    show ?thesis
    proof (cases e)
      case (Close sd c)
      with ys show ?thesis by (simp add: step_close_sent)
    next
      case (Message sd m)
      show ?thesis
      proof (cases sd)
        case Laptop
        with Message ys show ?thesis
          by (simp add: forward_audio_frame)
      next
        case Unmute
        let ?zs = "if response_task s = Running \<and> state (unmute_ws s) = OPEN \<and> state (laptop_ws s) = OPEN
                   then (case translated (payload m) of None \<Rightarrow> [] | Some v \<Rightarrow> [v]) else []"
        have st: "sent (laptop_ws (step s e)) = sent (laptop_ws s) @ ?zs"
          using Message Unmute by (simp add: forward_response_sent)
        have sub: "subseq (?zs @ ys)
           (List.map_filter (\<lambda>m. translated (payload m)) (received Unmute (e # evs)))"
          using ys(2) Message Unmute
          by (auto simp: List.map_filter_simps split: option.splits)
        show ?thesis
          using ys(1) st sub by (intro exI [of _ "?zs @ ys"]) simp
      qed
    qed
  qed
qed

text \<open>While neither connection closes, every translated message is delivered.\<close>

lemma run_live:
  "live s \<Longrightarrow> list_all (\<lambda>e. \<not> is_close e) evs \<Longrightarrow>
   live (run s evs) \<and>
   sent (unmute_ws (run s evs)) =
     sent (unmute_ws s) @ List.map_filter (\<lambda>m. translated (unmute_msg m)) (received Laptop evs) \<and>
   sent (laptop_ws (run s evs)) =
     sent (laptop_ws s) @ List.map_filter (\<lambda>m. translated (payload m)) (received Unmute evs)"
proof (induction evs arbitrary: s)
  case Nil
  then show ?case by (simp add: List.map_filter_simps)
next
  case (Cons e evs)
  from Cons.prems obtain sd m where e: "e = Message sd m"
    by (cases e) simp_all
  have g: "gather (audio_task s) (response_task s) = Running"
    using Cons.prems(1) by (simp add: live_def)
  have l: "live (step s e)"
    using Cons.prems(1) e
    by (cases sd) (simp_all add: live_def forward_audio_frame forward_response_frame)
  have rest: "list_all (\<lambda>e. \<not> is_close e) evs"
    using Cons.prems(2) by simp
  note IH = Cons.IH [OF l rest]
  show ?case
  proof (cases sd)
    case Laptop
    with e g IH Cons.prems(1) show ?thesis
      by (auto simp: live_def forward_audio_sent forward_audio_frame List.map_filter_simps
          split: option.splits)
  next
    case Unmute
    with e g IH Cons.prems(1) show ?thesis
      by (auto simp: live_def forward_response_sent forward_response_frame List.map_filter_simps
          split: option.splits)
  qed
qed

subsection \<open>Order within one direction\<close>

text \<open>
  Claim C7. Within one direction the order of the messages is kept. For every sequence of
  events, the frames sent to Unmute are, in order, a subsequence of the translations of
  the messages received from the laptop (and likewise from Unmute to the laptop); and
  as long as no connection closes, the frames sent are exactly the translations of the
  received messages in the order received, with the dropped messages removed.
\<close>

theorem order_preserved:
  "subseq (sent (unmute_ws (relay evs)))
     (List.map_filter (\<lambda>m. translated (unmute_msg m)) (received Laptop evs)) \<and>
   subseq (sent (laptop_ws (relay evs)))
     (List.map_filter (\<lambda>m. translated (payload m)) (received Unmute evs)) \<and>
   (list_all (\<lambda>e. \<not> is_close e) evs \<longrightarrow>
      sent (unmute_ws (relay evs)) =
        List.map_filter (\<lambda>m. translated (unmute_msg m)) (received Laptop evs) \<and>
      sent (laptop_ws (relay evs)) =
        List.map_filter (\<lambda>m. translated (payload m)) (received Unmute evs))"
proof -
  have l: "live bridge_active"
    by (simp add: live_def bridge_active_def)
  have e: "sent (unmute_ws bridge_active) = []" "sent (laptop_ws bridge_active) = []"
    by (simp_all add: bridge_active_def)
  show ?thesis
    using run_sent_unmute [of bridge_active evs] run_sent_laptop [of bridge_active evs]
      run_live [OF l, of evs] e
    by (auto simp: relay_def)
qed

theorem order_preserved_witness:
  "sent (unmute_ws (relay
     [Message Laptop (Json (JObj [(''type'', JStr ''audio''), (''data'', JStr ''AAEC'')])),
      Message Unmute (Json (JObj [(''type'', JStr ''response.text.delta''), (''delta'', JStr ''Hi'')])),
      Message Laptop NotJson,
      Message Laptop (Json (JObj [(''type'', JStr ''audio''), (''data'', JStr ''AwQF'')])),
      Message Unmute (Json (JObj [(''type'', JStr ''response.audio.delta''), (''delta'', JStr ''T2dn'')]))])) =
     [JObj [(''type'', JStr ''unmute.input_audio_buffer.append_pcm''),
            (''audio'', JStr ''AAEC''), (''format'', JStr ''int16'')],
      JObj [(''type'', JStr ''unmute.input_audio_buffer.append_pcm''),
            (''audio'', JStr ''AwQF''), (''format'', JStr ''int16'')]] \<and>
   sent (laptop_ws (relay
     [Message Laptop (Json (JObj [(''type'', JStr ''audio''), (''data'', JStr ''AAEC'')])),
      Message Unmute (Json (JObj [(''type'', JStr ''response.text.delta''), (''delta'', JStr ''Hi'')])),
      Message Laptop NotJson,
      Message Laptop (Json (JObj [(''type'', JStr ''audio''), (''data'', JStr ''AwQF'')])),
      Message Unmute (Json (JObj [(''type'', JStr ''response.audio.delta''), (''delta'', JStr ''T2dn'')]))])) =
     [JObj [(''type'', JStr ''robot.text''), (''text'', JStr ''Hi'')],
      JObj [(''type'', JStr ''robot.voice_audio''), (''audio'', JStr ''T2dn'')]]"
  using order_preserved
    [of "[Message Laptop (Json (JObj [(''type'', JStr ''audio''), (''data'', JStr ''AAEC'')])),
      Message Unmute (Json (JObj [(''type'', JStr ''response.text.delta''), (''delta'', JStr ''Hi'')])),
      Message Laptop NotJson,
      Message Laptop (Json (JObj [(''type'', JStr ''audio''), (''data'', JStr ''AwQF'')])),
      Message Unmute (Json (JObj [(''type'', JStr ''response.audio.delta''), (''delta'', JStr ''T2dn'')]))]"]
  by (simp add: List.map_filter_simps unmute_msg_def payload_def)

lemma unmute_msg_envelope:
  "unmute_msg m = Inr (Some v) \<Longrightarrow> append_pcm_envelope v \<and> m \<noteq> Json v"
  by (cases m; cases "json_loads m")
     (auto simp: unmute_msg_def append_pcm_envelope_def
       split: sum.splits if_splits option.splits json.splits)

lemma payload_envelope:
  "payload m = Inr (Some v) \<Longrightarrow> robot_envelope v \<and> m \<noteq> Json v"
  by (cases m; cases "json_loads m")
     (auto simp: payload_def robot_envelope_def
       split: sum.splits if_splits option.splits json.splits)

lemma translated_unmute_msg:
  "v \<in> set (List.map_filter (\<lambda>m. translated (unmute_msg m)) ms) \<Longrightarrow> \<exists>m. unmute_msg m = Inr (Some v)"
  by (induction ms) (auto simp: List.map_filter_simps split: option.splits elim: translated.elims)

lemma translated_payload:
  "v \<in> set (List.map_filter (\<lambda>m. translated (payload m)) ms) \<Longrightarrow> \<exists>m. payload m = Inr (Some v)"
  by (induction ms) (auto simp: List.map_filter_simps split: option.splits elim: translated.elims)

subsection \<open>The shape of what is sent\<close>

text \<open>
  Claim C9. Every frame the session ever sends to Unmute has type
  \<^verbatim>\<open>unmute.input_audio_buffer.append_pcm\<close> and exactly the fields \<^verbatim>\<open>type, audio, format\<close>;
  every frame it sends to the laptop has type \<^verbatim>\<open>robot.voice_audio\<close> with exactly the
  fields \<^verbatim>\<open>type, audio\<close> or type \<^verbatim>\<open>robot.text\<close> with exactly the fields
  \<^verbatim>\<open>type, text\<close>. The same holds for every dictionary a loop body builds, whether or not
  the send succeeds, and that dictionary is never the inbound message itself; its fields
  are the fixed ones, so no other field of the inbound message appears in it.
\<close>

theorem outbound_schema:
  "list_all append_pcm_envelope (sent (unmute_ws (relay evs))) \<and>
   list_all robot_envelope (sent (laptop_ws (relay evs))) \<and>
   (unmute_msg m = Inr (Some v) \<longrightarrow> append_pcm_envelope v \<and> m \<noteq> Json v) \<and>
   (payload m = Inr (Some v) \<longrightarrow> robot_envelope v \<and> m \<noteq> Json v)"
proof -
  have e: "sent (unmute_ws bridge_active) = []" "sent (laptop_ws bridge_active) = []"
    by (simp_all add: bridge_active_def)
  have "append_pcm_envelope w" if "w \<in> set (sent (unmute_ws (relay evs)))" for w
  proof -
    from run_sent_unmute [of bridge_active evs] e that
    have "w \<in> set (List.map_filter (\<lambda>m. translated (unmute_msg m)) (received Laptop evs))"
      by (auto simp: relay_def dest: list_emb_set)
    then show ?thesis
      using translated_unmute_msg unmute_msg_envelope by blast
  qed
  moreover have "robot_envelope w" if "w \<in> set (sent (laptop_ws (relay evs)))" for w
  proof -
    from run_sent_laptop [of bridge_active evs] e that
    have "w \<in> set (List.map_filter (\<lambda>m. translated (payload m)) (received Unmute evs))"
      by (auto simp: relay_def dest: list_emb_set)
    then show ?thesis
      using translated_payload payload_envelope by blast
  qed
  ultimately show ?thesis
    using unmute_msg_envelope [of m v] payload_envelope [of m v]
    by (simp add: list_all_iff)
qed

theorem outbound_schema_witness:
  "unmute_msg (Json (JObj [(''type'', JStr ''audio''), (''data'', JStr ''AAEC''),
       (''format'', JStr ''f32''), (''seq'', JInt 9)])) =
     Inr (Some (JObj [(''type'', JStr ''unmute.input_audio_buffer.append_pcm''),
       (''audio'', JStr ''AAEC''), (''format'', JStr ''int16'')])) \<and>
   append_pcm_envelope (JObj [(''type'', JStr ''unmute.input_audio_buffer.append_pcm''),
       (''audio'', JStr ''AAEC''), (''format'', JStr ''int16'')]) \<and>
   payload (Json (JObj [(''type'', JStr ''response.text.delta''), (''delta'', JStr ''Hi''),
       (''response_id'', JStr ''r1'')])) =
     Inr (Some (JObj [(''type'', JStr ''robot.text''), (''text'', JStr ''Hi'')])) \<and>
   robot_envelope (JObj [(''type'', JStr ''robot.text''), (''text'', JStr ''Hi'')]) \<and>
   list_all append_pcm_envelope (sent (unmute_ws (relay
     [Message Laptop (Json (JObj [(''type'', JStr ''audio''), (''data'', JStr ''AAEC''),
        (''format'', JStr ''f32''), (''seq'', JInt 9)]))])))"
proof -
  have a: "unmute_msg (Json (JObj [(''type'', JStr ''audio''), (''data'', JStr ''AAEC''),
       (''format'', JStr ''f32''), (''seq'', JInt 9)])) =
     Inr (Some (JObj [(''type'', JStr ''unmute.input_audio_buffer.append_pcm''),
       (''audio'', JStr ''AAEC''), (''format'', JStr ''int16'')]))"
    by (simp add: unmute_msg_def)
  have b: "payload (Json (JObj [(''type'', JStr ''response.text.delta''), (''delta'', JStr ''Hi''),
       (''response_id'', JStr ''r1'')])) =
     Inr (Some (JObj [(''type'', JStr ''robot.text''), (''text'', JStr ''Hi'')]))"
    by (simp add: payload_def)
  show ?thesis
    using a b
      outbound_schema
        [of "[Message Laptop (Json (JObj [(''type'', JStr ''audio''), (''data'', JStr ''AAEC''),
                (''format'', JStr ''f32''), (''seq'', JInt 9)]))]"
            "Json (JObj [(''type'', JStr ''audio''), (''data'', JStr ''AAEC''),
                (''format'', JStr ''f32''), (''seq'', JInt 9)])"
            "JObj [(''type'', JStr ''unmute.input_audio_buffer.append_pcm''),
                (''audio'', JStr ''AAEC''), (''format'', JStr ''int16'')]"]
      outbound_schema
        [of "[]"
            "Json (JObj [(''type'', JStr ''response.text.delta''), (''delta'', JStr ''Hi''),
                (''response_id'', JStr ''r1'')])"
            "JObj [(''type'', JStr ''robot.text''), (''text'', JStr ''Hi'')]"]
    by simp
qed

lemma forward_audio_send_fails:
  "unmute_msg m = Inr (Some v) \<Longrightarrow> state (unmute_ws s) = CLOSED c \<Longrightarrow>
   forward_audio_to_unmute s m =
     s\<lparr>logged := logged s @ [ErrorForwardingAudio (connection_closed c)]\<rparr>"
  by (simp add: forward_audio_to_unmute_def send_def)

lemma forward_response_send_fails:
  "payload m = Inr (Some v) \<Longrightarrow> state (laptop_ws s) = CLOSED c \<Longrightarrow>
   forward_response_to_laptop s m =
     s\<lparr>logged := logged s @ [ErrorForwardingResponse (connection_closed c)]\<rparr>"
  by (simp add: forward_response_to_laptop_def send_def)

lemma gather_raise_right:
  "gather a b = Running \<Longrightarrow> gather a (Raised e) = Raised e"
  by (cases a; cases b) auto

subsection \<open>When a loop ends\<close>

text \<open>
  Claim C4 says that a loop runs until \<^verbatim>\<open>receive\<close> or \<^verbatim>\<open>send\<close> raises a transport error and
  that a transport error raised by \<^verbatim>\<open>send\<close> ends the loop. In the source the \<^verbatim>\<open>send\<close> is
  inside the \<^verbatim>\<open>try\<close> whose \<^verbatim>\<open>except Exception\<close> logs and goes on. Here Unmute has closed
  its connection normally; \<^verbatim>\<open>send\<close> on it raises, two audio messages from the laptop arrive,
  both sends fail and are logged, and \<^verbatim>\<open>forward_audio_to_unmute\<close> is still running.
\<close>

theorem send_failure_counterexample:
  "send (unmute_ws (relay [Close Unmute CloseOK]))
     (JObj [(''type'', JStr ''unmute.input_audio_buffer.append_pcm''),
            (''audio'', JStr ''AAEC''), (''format'', JStr ''int16'')]) = Inl ConnectionClosedOK \<and>
   audio_task (relay
     [Close Unmute CloseOK,
      Message Laptop (Json (JObj [(''type'', JStr ''audio''), (''data'', JStr ''AAEC'')])),
      Message Laptop (Json (JObj [(''type'', JStr ''audio''), (''data'', JStr ''AwQF'')]))]) = Running \<and>
   logged (relay
     [Close Unmute CloseOK,
      Message Laptop (Json (JObj [(''type'', JStr ''audio''), (''data'', JStr ''AAEC'')])),
      Message Laptop (Json (JObj [(''type'', JStr ''audio''), (''data'', JStr ''AwQF'')]))]) =
     [ErrorForwardingAudio ConnectionClosedOK, ErrorForwardingAudio ConnectionClosedOK]"
  by (simp add: relay_def bridge_active_def forward_audio_to_unmute_def unmute_msg_def send_def)

text \<open>
  Claim C4, as the code has it. No received message ends a loop, whatever happens in its
  turn; in particular when \<^verbatim>\<open>send\<close> raises because the destination is closed, the error is
  logged, nothing else changes and the loop goes on. A loop ends only when its own source
  connection closes: after an abnormal close it raises \<^verbatim>\<open>ConnectionClosedError\<close>, which
  \<^verbatim>\<open>gather\<close> passes on at once as the result of the session; after a normal close it returns.
\<close>

theorem loop_termination:
  "audio_task (step s (Message sd m)) = audio_task s \<and>
   response_task (step s (Message sd m)) = response_task s \<and>
   (audio_task s = Running \<and> state (laptop_ws s) = OPEN \<and>
    unmute_msg m = Inr (Some v) \<and> state (unmute_ws s) = CLOSED c \<longrightarrow>
      step s (Message Laptop m) =
        s\<lparr>logged := logged s @ [ErrorForwardingAudio (connection_closed c)]\<rparr>) \<and>
   (response_task s = Running \<and> state (unmute_ws s) = OPEN \<and>
    payload m = Inr (Some v) \<and> state (laptop_ws s) = CLOSED c \<longrightarrow>
      step s (Message Unmute m) =
        s\<lparr>logged := logged s @ [ErrorForwardingResponse (connection_closed c)]\<rparr>) \<and>
   (gather (audio_task s) (response_task s) = Running \<and>
    audio_task s = Running \<and> state (laptop_ws s) = OPEN \<longrightarrow>
      audio_task (step s (Close Laptop CloseError)) = Raised ConnectionClosedError \<and>
      gather (audio_task (step s (Close Laptop CloseError)))
             (response_task (step s (Close Laptop CloseError))) = Raised ConnectionClosedError \<and>
      audio_task (step s (Close Laptop CloseOK)) = Returned) \<and>
   (gather (audio_task s) (response_task s) = Running \<and>
    response_task s = Running \<and> state (unmute_ws s) = OPEN \<longrightarrow>
      response_task (step s (Close Unmute CloseError)) = Raised ConnectionClosedError \<and>
      gather (audio_task (step s (Close Unmute CloseError)))
             (response_task (step s (Close Unmute CloseError))) = Raised ConnectionClosedError \<and>
      response_task (step s (Close Unmute CloseOK)) = Returned)"
  using gather_raise_right [of "audio_task s" "response_task s" ConnectionClosedError]
  by (auto simp: step_message_tasks forward_audio_send_fails forward_response_send_fails)

theorem loop_termination_witness:
  "step (bridge_active\<lparr>unmute_ws := \<lparr>state = CLOSED CloseOK, sent = []\<rparr>, response_task := Returned\<rparr>)
     (Message Laptop (Json (JObj [(''type'', JStr ''audio''), (''data'', JStr ''AAEC'')]))) =
   bridge_active\<lparr>unmute_ws := \<lparr>state = CLOSED CloseOK, sent = []\<rparr>, response_task := Returned,
     logged := [ErrorForwardingAudio ConnectionClosedOK]\<rparr> \<and>
   step (bridge_active\<lparr>laptop_ws := \<lparr>state = CLOSED CloseOK, sent = []\<rparr>, audio_task := Returned\<rparr>)
     (Message Unmute (Json (JObj [(''type'', JStr ''response.text.delta''), (''delta'', JStr ''Hi'')]))) =
   bridge_active\<lparr>laptop_ws := \<lparr>state = CLOSED CloseOK, sent = []\<rparr>, audio_task := Returned,
     logged := [ErrorForwardingResponse ConnectionClosedOK]\<rparr> \<and>
   gather (audio_task (step bridge_active (Close Laptop CloseError)))
          (response_task (step bridge_active (Close Laptop CloseError))) = Raised ConnectionClosedError \<and>
   gather (audio_task (step bridge_active (Close Unmute CloseError)))
          (response_task (step bridge_active (Close Unmute CloseError))) = Raised ConnectionClosedError"
proof -
  have a: "unmute_msg (Json (JObj [(''type'', JStr ''audio''), (''data'', JStr ''AAEC'')])) =
      Inr (Some (JObj [(''type'', JStr ''unmute.input_audio_buffer.append_pcm''),
        (''audio'', JStr ''AAEC''), (''format'', JStr ''int16'')]))"
    by (simp add: unmute_msg_def)
  have b: "payload (Json (JObj [(''type'', JStr ''response.text.delta''), (''delta'', JStr ''Hi'')])) =
      Inr (Some (JObj [(''type'', JStr ''robot.text''), (''text'', JStr ''Hi'')]))"
    by (simp add: payload_def)
  show ?thesis
    using
      loop_termination
        [of "bridge_active\<lparr>unmute_ws := \<lparr>state = CLOSED CloseOK, sent = []\<rparr>, response_task := Returned\<rparr>"
            Laptop "Json (JObj [(''type'', JStr ''audio''), (''data'', JStr ''AAEC'')])"
            "JObj [(''type'', JStr ''unmute.input_audio_buffer.append_pcm''),
              (''audio'', JStr ''AAEC''), (''format'', JStr ''int16'')]" CloseOK]
      loop_termination
        [of "bridge_active\<lparr>laptop_ws := \<lparr>state = CLOSED CloseOK, sent = []\<rparr>, audio_task := Returned\<rparr>"
            Unmute "Json (JObj [(''type'', JStr ''response.text.delta''), (''delta'', JStr ''Hi'')])"
            "JObj [(''type'', JStr ''robot.text''), (''text'', JStr ''Hi'')]" CloseOK]
      loop_termination [of bridge_active Laptop NotJson JNull CloseOK]
      a b
    by (simp add: bridge_active_def)
qed

subsection \<open>Frames that are not JSON\<close>

text \<open>
  Claim C5 says that a frame that cannot be decoded as JSON ends the loop that received it
  and with it the session. In the source \<^verbatim>\<open>json.loads\<close> is the first statement inside the
  \<^verbatim>\<open>try\<close>. Here the laptop sends such a frame: the error is logged, the loop and the session
  go on, and the audio message that follows is forwarded.
\<close>

theorem unparsable_frame_counterexample:
  "audio_task (relay [Message Laptop NotJson]) = Running \<and>
   gather (audio_task (relay [Message Laptop NotJson]))
          (response_task (relay [Message Laptop NotJson])) = Running \<and>
   relay [Message Laptop NotJson,
          Message Laptop (Json (JObj [(''type'', JStr ''audio''), (''data'', JStr ''AAEC'')]))] =
     bridge_active
       \<lparr>unmute_ws := \<lparr>state = OPEN, sent =
          [JObj [(''type'', JStr ''unmute.input_audio_buffer.append_pcm''),
                 (''audio'', JStr ''AAEC''), (''format'', JStr ''int16'')]]\<rparr>,
        logged := [ErrorForwardingAudio JSONDecodeError]\<rparr>"
  by (simp add: relay_def bridge_active_def forward_audio_to_unmute_def unmute_msg_def send_def)

lemma not_dict_AttributeError:
  "\<forall>d. v \<noteq> JObj d \<Longrightarrow> unmute_msg (Json v) = Inl AttributeError \<and> payload (Json v) = Inl AttributeError"
  by (cases v) (simp_all add: unmute_msg_def payload_def)

text \<open>
  Claim C5, as the code has it. A frame that is not JSON is handled like a decodable but
  malformed one: \<^verbatim>\<open>JSONDecodeError\<close> is logged and the session is otherwise unchanged. A
  frame that decodes to something other than a dictionary fails at \<^verbatim>\<open>data.get\<close> with
  \<^verbatim>\<open>AttributeError\<close>, logged in the same way. No message of any kind changes what
  \<^verbatim>\<open>gather\<close> sees, so none ends a loop or the session.
\<close>

theorem unparsable_frame_recovered:
  "(audio_task s = Running \<and> state (laptop_ws s) = OPEN \<longrightarrow>
      step s (Message Laptop NotJson) =
        s\<lparr>logged := logged s @ [ErrorForwardingAudio JSONDecodeError]\<rparr>) \<and>
   (response_task s = Running \<and> state (unmute_ws s) = OPEN \<longrightarrow>
      step s (Message Unmute NotJson) =
        s\<lparr>logged := logged s @ [ErrorForwardingResponse JSONDecodeError]\<rparr>) \<and>
   ((\<forall>d. v \<noteq> JObj d) \<and> audio_task s = Running \<and> state (laptop_ws s) = OPEN \<longrightarrow>
      step s (Message Laptop (Json v)) =
        s\<lparr>logged := logged s @ [ErrorForwardingAudio AttributeError]\<rparr>) \<and>
   ((\<forall>d. v \<noteq> JObj d) \<and> response_task s = Running \<and> state (unmute_ws s) = OPEN \<longrightarrow>
      step s (Message Unmute (Json v)) =
        s\<lparr>logged := logged s @ [ErrorForwardingResponse AttributeError]\<rparr>) \<and>
   gather (audio_task (step s (Message sd m))) (response_task (step s (Message sd m))) =
     gather (audio_task s) (response_task s)"
proof -
  have n: "unmute_msg NotJson = Inl JSONDecodeError" "payload NotJson = Inl JSONDecodeError"
    by (simp_all add: unmute_msg_def payload_def)
  show ?thesis
    using not_dict_AttributeError [of v]
    by (simp add: n step_message_tasks forward_audio_error forward_response_error)
qed

theorem unparsable_frame_recovered_witness:
  "step bridge_active (Message Laptop NotJson) =
     bridge_active\<lparr>logged := [ErrorForwardingAudio JSONDecodeError]\<rparr> \<and>
   step bridge_active (Message Unmute NotJson) =
     bridge_active\<lparr>logged := [ErrorForwardingResponse JSONDecodeError]\<rparr> \<and>
   step bridge_active (Message Laptop (Json (JList [JStr ''audio'']))) =
     bridge_active\<lparr>logged := [ErrorForwardingAudio AttributeError]\<rparr> \<and>
   step bridge_active (Message Unmute (Json (JStr ''response.text.delta''))) =
     bridge_active\<lparr>logged := [ErrorForwardingResponse AttributeError]\<rparr>"
  using unparsable_frame_recovered [of bridge_active "JList [JStr ''audio'']" Laptop NotJson]
    unparsable_frame_recovered [of bridge_active "JStr ''response.text.delta''" Unmute NotJson]
  by (simp add: bridge_active_def)

text \<open>On a session started by \<open>bridge_active\<close>, a coroutine runs exactly while its source is open.\<close>

lemma async_for_end_not_Running: "async_for_end c \<noteq> Running"
  by (cases c) simp_all

lemma step_tasks_conns:
  assumes "audio_task s = Running \<longleftrightarrow> state (laptop_ws s) = OPEN"
    and "response_task s = Running \<longleftrightarrow> state (unmute_ws s) = OPEN"
  shows "(audio_task (step s e) = Running \<longleftrightarrow> state (laptop_ws (step s e)) = OPEN) \<and>
         (response_task (step s e) = Running \<longleftrightarrow> state (unmute_ws (step s e)) = OPEN)"
proof (cases e)
  case (Message sd m)
  with assms show ?thesis
    by (simp add: step_message_tasks step_message_states)
next
  case (Close sd c)
  with assms show ?thesis
    by (cases sd) (simp_all add: async_for_end_not_Running)
qed

lemma run_tasks_conns:
  assumes "audio_task s = Running \<longleftrightarrow> state (laptop_ws s) = OPEN"
    and "response_task s = Running \<longleftrightarrow> state (unmute_ws s) = OPEN"
  shows "(audio_task (run s evs) = Running \<longleftrightarrow> state (laptop_ws (run s evs)) = OPEN) \<and>
         (response_task (run s evs) = Running \<longleftrightarrow> state (unmute_ws (run s evs)) = OPEN)"
  using assms
proof (induction evs arbitrary: s)
  case Nil
  then show ?case by simp
next
  case (Cons e evs)
  from step_tasks_conns [OF Cons.prems, of e] Cons.IH [of "step s e"]
  show ?case by (simp del: step.simps)
qed

lemma relay_tasks_conns:
  "(audio_task (relay evs) = Running \<longleftrightarrow> state (laptop_ws (relay evs)) = OPEN) \<and>
   (response_task (relay evs) = Running \<longleftrightarrow> state (unmute_ws (relay evs)) = OPEN)"
  unfolding relay_def by (rule run_tasks_conns) (simp_all add: bridge_active_def)

lemma relay_append: "relay (evs @ rest) = run (relay evs) rest"
  by (simp add: relay_def run_append)

text \<open>A coroutine that has ended stays as it ended.\<close>

lemma step_task_final:
  "audio_task s \<noteq> Running \<Longrightarrow> audio_task (step s e) = audio_task s"
  "response_task s \<noteq> Running \<Longrightarrow> response_task (step s e) = response_task s"
proof -
  show "audio_task (step s e) = audio_task s" if "audio_task s \<noteq> Running"
  proof (cases e)
    case (Message sd m)
    then show ?thesis by (simp add: step_message_tasks del: step.simps)
  next
    case (Close sd c)
    with that show ?thesis by (cases sd) simp_all
  qed
  show "response_task (step s e) = response_task s" if "response_task s \<noteq> Running"
  proof (cases e)
    case (Message sd m)
    then show ?thesis by (simp add: step_message_tasks del: step.simps)
  next
    case (Close sd c)
    with that show ?thesis by (cases sd) simp_all
  qed
qed

lemma run_task_final:
  "audio_task s \<noteq> Running \<Longrightarrow> audio_task (run s es) = audio_task s"
  "response_task s \<noteq> Running \<Longrightarrow> response_task (run s es) = response_task s"
proof -
  show "audio_task (run s es) = audio_task s" if "audio_task s \<noteq> Running"
    using that by (induction es arbitrary: s) (simp_all add: step_task_final del: step.simps)
  show "response_task (run s es) = response_task s" if "response_task s \<noteq> Running"
    using that by (induction es arbitrary: s) (simp_all add: step_task_final del: step.simps)
qed

text \<open>The only exception a coroutine raises is that of an abnormal close.\<close>

lemma step_raises:
  "audio_task (step s e) = Raised x \<Longrightarrow> audio_task s = Raised x \<or> x = ConnectionClosedError"
  "response_task (step s e) = Raised x \<Longrightarrow> response_task s = Raised x \<or> x = ConnectionClosedError"
proof -
  show "audio_task s = Raised x \<or> x = ConnectionClosedError" if "audio_task (step s e) = Raised x"
  proof (cases e)
    case (Message sd m)
    with that show ?thesis by (simp add: step_message_tasks del: step.simps)
  next
    case (Close sd c)
    with that show ?thesis by (cases sd; cases c) (auto split: if_splits)
  qed
  show "response_task s = Raised x \<or> x = ConnectionClosedError" if "response_task (step s e) = Raised x"
  proof (cases e)
    case (Message sd m)
    with that show ?thesis by (simp add: step_message_tasks del: step.simps)
  next
    case (Close sd c)
    with that show ?thesis by (cases sd; cases c) (auto split: if_splits)
  qed
qed

lemma run_raises:
  "audio_task (run s es) = Raised x \<Longrightarrow> audio_task s = Raised x \<or> x = ConnectionClosedError"
  "response_task (run s es) = Raised x \<Longrightarrow> response_task s = Raised x \<or> x = ConnectionClosedError"
proof -
  show "audio_task s = Raised x \<or> x = ConnectionClosedError" if "audio_task (run s es) = Raised x"
    using that
  proof (induction es arbitrary: s)
    case Nil
    then show ?case by simp
  next
    case (Cons e es)
    then have "audio_task (step s e) = Raised x \<or> x = ConnectionClosedError"
      by (simp del: step.simps)
    then show ?case
      using step_raises(1) [of s e x] by blast
  qed
  show "response_task s = Raised x \<or> x = ConnectionClosedError" if "response_task (run s es) = Raised x"
    using that
  proof (induction es arbitrary: s)
    case Nil
    then show ?case by simp
  next
    case (Cons e es)
    then have "response_task (step s e) = Raised x \<or> x = ConnectionClosedError"
      by (simp del: step.simps)
    then show ?case
      using step_raises(2) [of s e x] by blast
  qed
qed

lemma relay_raises:
  "audio_task (relay evs) = Raised x \<Longrightarrow> x = ConnectionClosedError"
  "response_task (relay evs) = Raised x \<Longrightarrow> x = ConnectionClosedError"
  using run_raises [of bridge_active evs x] by (simp_all add: relay_def bridge_active_def)

lemma gather_raised_right:
  "(\<And>x. a = Raised x \<Longrightarrow> x = e) \<Longrightarrow> gather a (Raised e) = Raised e"
  by (cases a) auto

text \<open>Once a connection is closed, nothing more is sent in either direction through it.\<close>

lemma step_laptop_closed:
  assumes "state (laptop_ws s) \<noteq> OPEN"
  shows "state (laptop_ws (step s e)) = state (laptop_ws s) \<and>
         sent (laptop_ws (step s e)) = sent (laptop_ws s) \<and>
         sent (unmute_ws (step s e)) = sent (unmute_ws s)"
proof (cases e)
  case (Message sd m)
  with assms show ?thesis
    by (cases sd) (simp_all add: forward_response_frame forward_response_sent)
next
  case (Close sd c)
  with assms show ?thesis
    by (cases sd) simp_all
qed

lemma step_unmute_closed:
  assumes "state (unmute_ws s) \<noteq> OPEN"
  shows "state (unmute_ws (step s e)) = state (unmute_ws s) \<and>
         sent (laptop_ws (step s e)) = sent (laptop_ws s) \<and>
         sent (unmute_ws (step s e)) = sent (unmute_ws s)"
proof (cases e)
  case (Message sd m)
  with assms show ?thesis
    by (cases sd) (simp_all add: forward_audio_frame forward_audio_sent)
next
  case (Close sd c)
  with assms show ?thesis
    by (cases sd) simp_all
qed

lemma run_laptop_closed:
  "state (laptop_ws s) \<noteq> OPEN \<Longrightarrow>
   sent (laptop_ws (run s es)) = sent (laptop_ws s) \<and>
   sent (unmute_ws (run s es)) = sent (unmute_ws s)"
proof (induction es arbitrary: s)
  case Nil
  show ?case by simp
next
  case (Cons e es)
  from step_laptop_closed [OF Cons.prems, of e] Cons.IH [of "step s e"] Cons.prems
  show ?case by (simp del: step.simps)
qed

lemma run_unmute_closed:
  "state (unmute_ws s) \<noteq> OPEN \<Longrightarrow>
   sent (laptop_ws (run s es)) = sent (laptop_ws s) \<and>
   sent (unmute_ws (run s es)) = sent (unmute_ws s)"
proof (induction es arbitrary: s)
  case Nil
  show ?case by simp
next
  case (Cons e es)
  from step_unmute_closed [OF Cons.prems, of e] Cons.IH [of "step s e"] Cons.prems
  show ?case by (simp del: step.simps)
qed

text \<open>Messages alone change neither the coroutines nor the connections' states.\<close>

lemma run_no_close:
  "list_all (\<lambda>e. \<not> is_close e) es \<Longrightarrow>
   audio_task (run s es) = audio_task s \<and> response_task (run s es) = response_task s"
proof (induction es arbitrary: s)
  case Nil
  show ?case by simp
next
  case (Cons e es)
  then obtain sd m where "e = Message sd m"
    by (cases e) simp_all
  with Cons show ?case
    by (simp add: step_message_tasks del: step.simps)
qed

lemma run_bridge_cases:
  "gather (audio_task (relay evs)) (response_task (relay evs)) = Running \<Longrightarrow>
   run_bridge (BridgeActive evs # as) = [Connect Laptop, Connect Unmute]"
  "gather (audio_task (relay evs)) (response_task (relay evs)) = Returned \<Longrightarrow>
   run_bridge (BridgeActive evs # as) =
     [Connect Laptop, Connect Unmute, CloseWs Unmute, CloseWs Laptop] @ run_bridge as"
  "gather (audio_task (relay evs)) (response_task (relay evs)) = Raised e \<Longrightarrow>
   run_bridge (BridgeActive evs # as) =
     [Connect Laptop, Connect Unmute, CloseWs Unmute, CloseWs Laptop, Sleep 3] @ run_bridge as"
  by simp_all

lemma relay_snoc_close:
  "relay (evs @ e # rest) = run (step (relay evs) e) rest"
  by (simp add: relay_append)

lemma error_close_laptop:
  assumes o: "state (laptop_ws (relay evs)) = OPEN"
  shows "gather (audio_task (relay (evs @ Close Laptop CloseError # rest)))
           (response_task (relay (evs @ Close Laptop CloseError # rest))) =
         Raised ConnectionClosedError \<and>
         sent (laptop_ws (relay (evs @ Close Laptop CloseError # rest))) = sent (laptop_ws (relay evs)) \<and>
         sent (unmute_ws (relay (evs @ Close Laptop CloseError # rest))) = sent (unmute_ws (relay evs))"
proof -
  let ?s = "relay evs"
  let ?s1 = "step ?s (Close Laptop CloseError)"
  have r: "audio_task ?s = Running"
    using o relay_tasks_conns [of evs] by simp
  have t1: "audio_task ?s1 = Raised ConnectionClosedError"
    using o r by simp
  have c1: "state (laptop_ws ?s1) \<noteq> OPEN"
    using o by simp
  have "audio_task (run ?s1 rest) = Raised ConnectionClosedError"
    using run_task_final(1) [of ?s1 rest] t1 by simp
  then have g: "gather (audio_task (run ?s1 rest)) (response_task (run ?s1 rest)) =
      Raised ConnectionClosedError"
    by simp
  have "sent (laptop_ws (run ?s1 rest)) = sent (laptop_ws ?s1) \<and>
        sent (unmute_ws (run ?s1 rest)) = sent (unmute_ws ?s1)"
    using c1 by (rule run_laptop_closed)
  then have f: "sent (laptop_ws (run ?s1 rest)) = sent (laptop_ws ?s) \<and>
        sent (unmute_ws (run ?s1 rest)) = sent (unmute_ws ?s)"
    by (simp only: step_close_sent)
  show ?thesis
    using g f by (simp only: relay_snoc_close)
qed

lemma error_close_unmute:
  assumes o: "state (unmute_ws (relay evs)) = OPEN"
  shows "gather (audio_task (relay (evs @ Close Unmute CloseError # rest)))
           (response_task (relay (evs @ Close Unmute CloseError # rest))) =
         Raised ConnectionClosedError \<and>
         sent (laptop_ws (relay (evs @ Close Unmute CloseError # rest))) = sent (laptop_ws (relay evs)) \<and>
         sent (unmute_ws (relay (evs @ Close Unmute CloseError # rest))) = sent (unmute_ws (relay evs))"
proof -
  let ?s = "relay evs"
  let ?s1 = "step ?s (Close Unmute CloseError)"
  let ?evs' = "evs @ Close Unmute CloseError # rest"
  have r: "response_task ?s = Running"
    using o relay_tasks_conns [of evs] by simp
  have t1: "response_task ?s1 = Raised ConnectionClosedError"
    using o r by simp
  have c1: "state (unmute_ws ?s1) \<noteq> OPEN"
    using o by simp
  have "response_task (run ?s1 rest) = Raised ConnectionClosedError"
    using run_task_final(2) [of ?s1 rest] t1 by simp
  then have rt: "response_task (relay ?evs') = Raised ConnectionClosedError"
    by (simp only: relay_snoc_close)
  have g: "gather (audio_task (relay ?evs')) (response_task (relay ?evs')) =
      Raised ConnectionClosedError"
    unfolding rt by (rule gather_raised_right) (rule relay_raises(1))
  have "sent (laptop_ws (run ?s1 rest)) = sent (laptop_ws ?s1) \<and>
        sent (unmute_ws (run ?s1 rest)) = sent (unmute_ws ?s1)"
    using c1 by (rule run_unmute_closed)
  then have f: "sent (laptop_ws (run ?s1 rest)) = sent (laptop_ws ?s) \<and>
        sent (unmute_ws (run ?s1 rest)) = sent (unmute_ws ?s)"
    by (simp only: step_close_sent)
  show ?thesis
    using g f by (simp only: relay_snoc_close)
qed

lemma sibling_after_laptop_error:
  assumes o: "state (laptop_ws (relay evs)) = OPEN"
    and r: "response_task (relay evs) = Running"
    and p: "payload m = Inr (Some v)"
  shows "relay (evs @ [Close Laptop CloseError, Message Unmute m]) =
         (relay (evs @ [Close Laptop CloseError]))
           \<lparr>logged := logged (relay (evs @ [Close Laptop CloseError])) @
              [ErrorForwardingResponse ConnectionClosedError]\<rparr>"
proof -
  let ?s1 = "step (relay evs) (Close Laptop CloseError)"
  have u: "state (unmute_ws (relay evs)) = OPEN"
    using r relay_tasks_conns [of evs] by simp
  have a: "response_task ?s1 = Running" "state (unmute_ws ?s1) = OPEN"
    "state (laptop_ws ?s1) = CLOSED CloseError"
    using o r u by simp_all
  have "step ?s1 (Message Unmute m) =
      ?s1\<lparr>logged := logged ?s1 @ [ErrorForwardingResponse (connection_closed CloseError)]\<rparr>"
    using a forward_response_send_fails [OF p a(3)] by simp
  then show ?thesis
    by (simp add: relay_append del: step.simps)
qed

lemma sibling_after_unmute_error:
  assumes o: "state (unmute_ws (relay evs)) = OPEN"
    and r: "audio_task (relay evs) = Running"
    and p: "unmute_msg m = Inr (Some v)"
  shows "relay (evs @ [Close Unmute CloseError, Message Laptop m]) =
         (relay (evs @ [Close Unmute CloseError]))
           \<lparr>logged := logged (relay (evs @ [Close Unmute CloseError])) @
              [ErrorForwardingAudio ConnectionClosedError]\<rparr>"
proof -
  let ?s1 = "step (relay evs) (Close Unmute CloseError)"
  have u: "state (laptop_ws (relay evs)) = OPEN"
    using r relay_tasks_conns [of evs] by simp
  have a: "audio_task ?s1 = Running" "state (laptop_ws ?s1) = OPEN"
    "state (unmute_ws ?s1) = CLOSED CloseError"
    using o r u by simp_all
  have "step ?s1 (Message Laptop m) =
      ?s1\<lparr>logged := logged ?s1 @ [ErrorForwardingAudio (connection_closed CloseError)]\<rparr>"
    using a forward_audio_send_fails [OF p a(3)] by simp
  then show ?thesis
    by (simp add: relay_append del: step.simps)
qed

lemma normal_close_laptop:
  assumes o: "state (laptop_ws (relay evs)) = OPEN"
  shows "response_task (relay evs) = Running \<Longrightarrow> list_all (\<lambda>e. \<not> is_close e) rest \<Longrightarrow>
         gather (audio_task (relay (evs @ Close Laptop CloseOK # rest)))
           (response_task (relay (evs @ Close Laptop CloseOK # rest))) = Running"
    and "response_task (relay evs) = Returned \<Longrightarrow>
         gather (audio_task (relay (evs @ Close Laptop CloseOK # rest)))
           (response_task (relay (evs @ Close Laptop CloseOK # rest))) = Returned"
proof -
  let ?s1 = "step (relay evs) (Close Laptop CloseOK)"
  have r: "audio_task (relay evs) = Running"
    using o relay_tasks_conns [of evs] by simp
  have t: "audio_task ?s1 = Returned" "response_task ?s1 = response_task (relay evs)"
    using o r by simp_all
  show "gather (audio_task (relay (evs @ Close Laptop CloseOK # rest)))
           (response_task (relay (evs @ Close Laptop CloseOK # rest))) = Running"
    if "response_task (relay evs) = Running" "list_all (\<lambda>e. \<not> is_close e) rest"
    using run_no_close [OF that(2), of ?s1] t that(1)
    by (simp only: relay_snoc_close) simp
  show "gather (audio_task (relay (evs @ Close Laptop CloseOK # rest)))
           (response_task (relay (evs @ Close Laptop CloseOK # rest))) = Returned"
    if "response_task (relay evs) = Returned"
    using run_task_final [of ?s1 rest] t that
    by (simp only: relay_snoc_close) simp
qed

lemma normal_close_unmute:
  assumes o: "state (unmute_ws (relay evs)) = OPEN"
  shows "audio_task (relay evs) = Running \<Longrightarrow> list_all (\<lambda>e. \<not> is_close e) rest \<Longrightarrow>
         gather (audio_task (relay (evs @ Close Unmute CloseOK # rest)))
           (response_task (relay (evs @ Close Unmute CloseOK # rest))) = Running"
    and "audio_task (relay evs) = Returned \<Longrightarrow>
         gather (audio_task (relay (evs @ Close Unmute CloseOK # rest)))
           (response_task (relay (evs @ Close Unmute CloseOK # rest))) = Returned"
proof -
  let ?s1 = "step (relay evs) (Close Unmute CloseOK)"
  have r: "response_task (relay evs) = Running"
    using o relay_tasks_conns [of evs] by simp
  have t: "response_task ?s1 = Returned" "audio_task ?s1 = audio_task (relay evs)"
    using o r by simp_all
  show "gather (audio_task (relay (evs @ Close Unmute CloseOK # rest)))
           (response_task (relay (evs @ Close Unmute CloseOK # rest))) = Running"
    if "audio_task (relay evs) = Running" "list_all (\<lambda>e. \<not> is_close e) rest"
    using run_no_close [OF that(2), of ?s1] t that(1)
    by (simp only: relay_snoc_close) simp
  show "gather (audio_task (relay (evs @ Close Unmute CloseOK # rest)))
           (response_task (relay (evs @ Close Unmute CloseOK # rest))) = Returned"
    if "audio_task (relay evs) = Returned"
    using run_task_final [of ?s1 rest] t that
    by (simp only: relay_snoc_close) simp
qed

subsection \<open>When the session ends\<close>

text \<open>
  Claim C6 says that the session ends as soon as the first of the two loops ends, whether
  it returned or raised, that the other loop is cancelled, and that a session with one
  live direction never persists. But \<^verbatim>\<open>gather\<close> waits for both coroutines unless one
  raises. Here the laptop closes its connection normally: \<^verbatim>\<open>forward_audio_to_unmute\<close> has
  returned, while \<^verbatim>\<open>forward_response_to_laptop\<close> still runs on an open Unmute connection,
  \<^verbatim>\<open>gather\<close> is pending, a text message from Unmute is still handled (its send to the
  closed laptop connection fails and is logged), and the reconnect loop has closed nothing
  and has not gone on to its next pass.
\<close>

theorem half_open_counterexample:
  "audio_task (relay [Close Laptop CloseOK]) = Returned \<and>
   response_task (relay [Close Laptop CloseOK]) = Running \<and>
   state (unmute_ws (relay [Close Laptop CloseOK])) = OPEN \<and>
   gather (audio_task (relay [Close Laptop CloseOK]))
          (response_task (relay [Close Laptop CloseOK])) = Running \<and>
   logged (relay
     [Close Laptop CloseOK,
      Message Unmute (Json (JObj [(''type'', JStr ''response.text.delta''), (''delta'', JStr ''Hi'')]))]) =
     [ErrorForwardingResponse ConnectionClosedOK] \<and>
   run_bridge
     [BridgeActive
        [Close Laptop CloseOK,
         Message Unmute (Json (JObj [(''type'', JStr ''response.text.delta''), (''delta'', JStr ''Hi'')]))],
      LaptopConnectFails] =
     [Connect Laptop, Connect Unmute]"
  by (simp add: relay_def bridge_active_def forward_response_to_laptop_def payload_def send_def)

text \<open>
  Claim C6, as the code has it, for a session after any events \<open>evs\<close>.
  \<^item> An abnormal close of either open connection makes the loop reading it raise, so
    \<^verbatim>\<open>gather\<close> raises, whatever events still follow; from then on no frame is sent in
    either direction; both connections are closed (Unmute, then the laptop) and the
    reconnect loop sleeps and goes on to its next pass.
  \<^item> The other loop is not cancelled: a message it receives after that is still
    translated, its send to the closed connection fails, and the failure is logged.
  \<^item> A normal close while the other loop is running does not end the session: as long as
    only messages follow, \<^verbatim>\<open>gather\<close> stays pending, nothing is closed and there is no
    next pass.
  \<^item> A normal close when the other loop has already returned makes \<^verbatim>\<open>gather\<close> return;
    both connections are closed and the next pass follows.
\<close>

theorem session_end:
  "(state (laptop_ws (relay evs)) = OPEN \<longrightarrow>
      gather (audio_task (relay (evs @ Close Laptop CloseError # rest)))
        (response_task (relay (evs @ Close Laptop CloseError # rest))) = Raised ConnectionClosedError \<and>
      sent (laptop_ws (relay (evs @ Close Laptop CloseError # rest))) = sent (laptop_ws (relay evs)) \<and>
      sent (unmute_ws (relay (evs @ Close Laptop CloseError # rest))) = sent (unmute_ws (relay evs)) \<and>
      run_bridge (BridgeActive (evs @ Close Laptop CloseError # rest) # as) =
        [Connect Laptop, Connect Unmute, CloseWs Unmute, CloseWs Laptop, Sleep 3] @ run_bridge as) \<and>
   (state (unmute_ws (relay evs)) = OPEN \<longrightarrow>
      gather (audio_task (relay (evs @ Close Unmute CloseError # rest)))
        (response_task (relay (evs @ Close Unmute CloseError # rest))) = Raised ConnectionClosedError \<and>
      sent (laptop_ws (relay (evs @ Close Unmute CloseError # rest))) = sent (laptop_ws (relay evs)) \<and>
      sent (unmute_ws (relay (evs @ Close Unmute CloseError # rest))) = sent (unmute_ws (relay evs)) \<and>
      run_bridge (BridgeActive (evs @ Close Unmute CloseError # rest) # as) =
        [Connect Laptop, Connect Unmute, CloseWs Unmute, CloseWs Laptop, Sleep 3] @ run_bridge as) \<and>
   (state (laptop_ws (relay evs)) = OPEN \<and> response_task (relay evs) = Running \<and>
    payload m = Inr (Some v) \<longrightarrow>
      relay (evs @ [Close Laptop CloseError, Message Unmute m]) =
        (relay (evs @ [Close Laptop CloseError]))
          \<lparr>logged := logged (relay (evs @ [Close Laptop CloseError])) @
             [ErrorForwardingResponse ConnectionClosedError]\<rparr>) \<and>
   (state (unmute_ws (relay evs)) = OPEN \<and> audio_task (relay evs) = Running \<and>
    unmute_msg m = Inr (Some v) \<longrightarrow>
      relay (evs @ [Close Unmute CloseError, Message Laptop m]) =
        (relay (evs @ [Close Unmute CloseError]))
          \<lparr>logged := logged (relay (evs @ [Close Unmute CloseError])) @
             [ErrorForwardingAudio ConnectionClosedError]\<rparr>) \<and>
   (state (laptop_ws (relay evs)) = OPEN \<and> response_task (relay evs) = Running \<and>
    list_all (\<lambda>e. \<not> is_close e) rest \<longrightarrow>
      gather (audio_task (relay (evs @ Close Laptop CloseOK # rest)))
        (response_task (relay (evs @ Close Laptop CloseOK # rest))) = Running \<and>
      run_bridge (BridgeActive (evs @ Close Laptop CloseOK # rest) # as) =
        [Connect Laptop, Connect Unmute]) \<and>
   (state (unmute_ws (relay evs)) = OPEN \<and> audio_task (relay evs) = Running \<and>
    list_all (\<lambda>e. \<not> is_close e) rest \<longrightarrow>
      gather (audio_task (relay (evs @ Close Unmute CloseOK # rest)))
        (response_task (relay (evs @ Close Unmute CloseOK # rest))) = Running \<and>
      run_bridge (BridgeActive (evs @ Close Unmute CloseOK # rest) # as) =
        [Connect Laptop, Connect Unmute]) \<and>
   (state (laptop_ws (relay evs)) = OPEN \<and> response_task (relay evs) = Returned \<longrightarrow>
      gather (audio_task (relay (evs @ Close Laptop CloseOK # rest)))
        (response_task (relay (evs @ Close Laptop CloseOK # rest))) = Returned \<and>
      run_bridge (BridgeActive (evs @ Close Laptop CloseOK # rest) # as) =
        [Connect Laptop, Connect Unmute, CloseWs Unmute, CloseWs Laptop] @ run_bridge as) \<and>
   (state (unmute_ws (relay evs)) = OPEN \<and> audio_task (relay evs) = Returned \<longrightarrow>
      gather (audio_task (relay (evs @ Close Unmute CloseOK # rest)))
        (response_task (relay (evs @ Close Unmute CloseOK # rest))) = Returned \<and>
      run_bridge (BridgeActive (evs @ Close Unmute CloseOK # rest) # as) =
        [Connect Laptop, Connect Unmute, CloseWs Unmute, CloseWs Laptop] @ run_bridge as)"
proof (intro conjI impI)
  assume o: "state (laptop_ws (relay evs)) = OPEN"
  note e = error_close_laptop [OF o, of rest]
  show "gather (audio_task (relay (evs @ Close Laptop CloseError # rest)))
        (response_task (relay (evs @ Close Laptop CloseError # rest))) = Raised ConnectionClosedError"
    using e by (rule conjunct1)
  show "sent (laptop_ws (relay (evs @ Close Laptop CloseError # rest))) = sent (laptop_ws (relay evs))"
    using e by (elim conjE)
  show "sent (unmute_ws (relay (evs @ Close Laptop CloseError # rest))) = sent (unmute_ws (relay evs))"
    using e by (elim conjE)
  show "run_bridge (BridgeActive (evs @ Close Laptop CloseError # rest) # as) =
        [Connect Laptop, Connect Unmute, CloseWs Unmute, CloseWs Laptop, Sleep 3] @ run_bridge as"
    using e [THEN conjunct1] by (rule run_bridge_cases(3))
next
  assume o: "state (unmute_ws (relay evs)) = OPEN"
  note e = error_close_unmute [OF o, of rest]
  show "gather (audio_task (relay (evs @ Close Unmute CloseError # rest)))
        (response_task (relay (evs @ Close Unmute CloseError # rest))) = Raised ConnectionClosedError"
    using e by (rule conjunct1)
  show "sent (laptop_ws (relay (evs @ Close Unmute CloseError # rest))) = sent (laptop_ws (relay evs))"
    using e by (elim conjE)
  show "sent (unmute_ws (relay (evs @ Close Unmute CloseError # rest))) = sent (unmute_ws (relay evs))"
    using e by (elim conjE)
  show "run_bridge (BridgeActive (evs @ Close Unmute CloseError # rest) # as) =
        [Connect Laptop, Connect Unmute, CloseWs Unmute, CloseWs Laptop, Sleep 3] @ run_bridge as"
    using e [THEN conjunct1] by (rule run_bridge_cases(3))
next
  assume "state (laptop_ws (relay evs)) = OPEN \<and> response_task (relay evs) = Running \<and>
    payload m = Inr (Some v)"
  then show "relay (evs @ [Close Laptop CloseError, Message Unmute m]) =
        (relay (evs @ [Close Laptop CloseError]))
          \<lparr>logged := logged (relay (evs @ [Close Laptop CloseError])) @
             [ErrorForwardingResponse ConnectionClosedError]\<rparr>"
    using sibling_after_laptop_error [of evs m v] by (elim conjE)
next
  assume "state (unmute_ws (relay evs)) = OPEN \<and> audio_task (relay evs) = Running \<and>
    unmute_msg m = Inr (Some v)"
  then show "relay (evs @ [Close Unmute CloseError, Message Laptop m]) =
        (relay (evs @ [Close Unmute CloseError]))
          \<lparr>logged := logged (relay (evs @ [Close Unmute CloseError])) @
             [ErrorForwardingAudio ConnectionClosedError]\<rparr>"
    using sibling_after_unmute_error [of evs m v] by (elim conjE)
next
  assume a: "state (laptop_ws (relay evs)) = OPEN \<and> response_task (relay evs) = Running \<and>
    list_all (\<lambda>e. \<not> is_close e) rest"
  then show g: "gather (audio_task (relay (evs @ Close Laptop CloseOK # rest)))
        (response_task (relay (evs @ Close Laptop CloseOK # rest))) = Running"
    using normal_close_laptop(1) [of evs rest] by (elim conjE)
  then show "run_bridge (BridgeActive (evs @ Close Laptop CloseOK # rest) # as) =
        [Connect Laptop, Connect Unmute]"
    by (rule run_bridge_cases(1))
next
  assume a: "state (unmute_ws (relay evs)) = OPEN \<and> audio_task (relay evs) = Running \<and>
    list_all (\<lambda>e. \<not> is_close e) rest"
  then show g: "gather (audio_task (relay (evs @ Close Unmute CloseOK # rest)))
        (response_task (relay (evs @ Close Unmute CloseOK # rest))) = Running"
    using normal_close_unmute(1) [of evs rest] by (elim conjE)
  then show "run_bridge (BridgeActive (evs @ Close Unmute CloseOK # rest) # as) =
        [Connect Laptop, Connect Unmute]"
    by (rule run_bridge_cases(1))
next
  assume a: "state (laptop_ws (relay evs)) = OPEN \<and> response_task (relay evs) = Returned"
  then show g: "gather (audio_task (relay (evs @ Close Laptop CloseOK # rest)))
        (response_task (relay (evs @ Close Laptop CloseOK # rest))) = Returned"
    using normal_close_laptop(2) [of evs rest] by (elim conjE)
  then show "run_bridge (BridgeActive (evs @ Close Laptop CloseOK # rest) # as) =
        [Connect Laptop, Connect Unmute, CloseWs Unmute, CloseWs Laptop] @ run_bridge as"
    by (rule run_bridge_cases(2))
next
  assume a: "state (unmute_ws (relay evs)) = OPEN \<and> audio_task (relay evs) = Returned"
  then show g: "gather (audio_task (relay (evs @ Close Unmute CloseOK # rest)))
        (response_task (relay (evs @ Close Unmute CloseOK # rest))) = Returned"
    using normal_close_unmute(2) [of evs rest] by (elim conjE)
  then show "run_bridge (BridgeActive (evs @ Close Unmute CloseOK # rest) # as) =
        [Connect Laptop, Connect Unmute, CloseWs Unmute, CloseWs Laptop] @ run_bridge as"
    by (rule run_bridge_cases(2))
qed

theorem session_end_witness:
  "run_bridge
     [BridgeActive [Close Laptop CloseError, Message Unmute (Json (JObj [(''type'', JStr ''response.text.delta''), (''delta'', JStr ''Hi'')]))], LaptopConnectFails] =
     [Connect Laptop, Connect Unmute, CloseWs Unmute, CloseWs Laptop, Sleep 3,
      Connect Laptop, Sleep 3] \<and>
   logged (relay [Close Laptop CloseError, Message Unmute (Json (JObj [(''type'', JStr ''response.text.delta''), (''delta'', JStr ''Hi'')]))]) =
     [ErrorForwardingResponse ConnectionClosedError] \<and>
   run_bridge
     [BridgeActive [Close Laptop CloseOK, Message Unmute (Json (JObj [(''type'', JStr ''response.text.delta''), (''delta'', JStr ''Hi'')]))], LaptopConnectFails] =
     [Connect Laptop, Connect Unmute] \<and>
   run_bridge [BridgeActive [Close Unmute CloseError, Message Laptop (Json (JObj [(''type'', JStr ''audio''), (''data'', JStr ''AAEC'')]))]] =
     [Connect Laptop, Connect Unmute, CloseWs Unmute, CloseWs Laptop, Sleep 3] \<and>
   logged (relay [Close Unmute CloseError, Message Laptop (Json (JObj [(''type'', JStr ''audio''), (''data'', JStr ''AAEC'')]))]) =
     [ErrorForwardingAudio ConnectionClosedError] \<and>
   run_bridge [BridgeActive [Close Unmute CloseOK, Message Laptop (Json (JObj [(''type'', JStr ''audio''), (''data'', JStr ''AAEC'')]))]] =
     [Connect Laptop, Connect Unmute] \<and>
   run_bridge [BridgeActive [Close Unmute CloseOK, Close Laptop CloseOK]] =
     [Connect Laptop, Connect Unmute, CloseWs Unmute, CloseWs Laptop] \<and>
   run_bridge [BridgeActive [Close Laptop CloseOK, Close Unmute CloseOK]] =
     [Connect Laptop, Connect Unmute, CloseWs Unmute, CloseWs Laptop]"
proof -
  have b: "state (laptop_ws (relay [])) = OPEN" "state (unmute_ws (relay [])) = OPEN"
    "audio_task (relay []) = Running" "response_task (relay []) = Running"
    by (simp_all add: relay_def bridge_active_def)
  have c: "state (laptop_ws (relay [Close Unmute CloseOK])) = OPEN"
    "response_task (relay [Close Unmute CloseOK]) = Returned"
    by (simp_all add: relay_def bridge_active_def)
  have d: "state (unmute_ws (relay [Close Laptop CloseOK])) = OPEN"
    "audio_task (relay [Close Laptop CloseOK]) = Returned"
    by (simp_all add: relay_def bridge_active_def)
  have p: "payload (Json (JObj [(''type'', JStr ''response.text.delta''), (''delta'', JStr ''Hi'')])) = Inr (Some (JObj [(''type'', JStr ''robot.text''), (''text'', JStr ''Hi'')]))"
    by (simp add: payload_def)
  have u: "unmute_msg (Json (JObj [(''type'', JStr ''audio''), (''data'', JStr ''AAEC'')])) = Inr (Some (JObj [(''type'', JStr ''unmute.input_audio_buffer.append_pcm''), (''audio'', JStr ''AAEC''), (''format'', JStr ''int16'')]))"
    by (simp add: unmute_msg_def)
  have n: "list_all (\<lambda>e. \<not> is_close e) [Message Unmute (Json (JObj [(''type'', JStr ''response.text.delta''), (''delta'', JStr ''Hi'')]))]"
    "list_all (\<lambda>e. \<not> is_close e) [Message Laptop (Json (JObj [(''type'', JStr ''audio''), (''data'', JStr ''AAEC'')]))]"
    by simp_all
  have e: "run_bridge [LaptopConnectFails] = [Connect Laptop, Sleep 3]" "run_bridge [] = []"
    by simp_all
  note i1 = session_end
    [of "[]" "[Message Unmute (Json (JObj [(''type'', JStr ''response.text.delta''), (''delta'', JStr ''Hi'')]))]" "[LaptopConnectFails]" "Json (JObj [(''type'', JStr ''response.text.delta''), (''delta'', JStr ''Hi'')])" "JObj [(''type'', JStr ''robot.text''), (''text'', JStr ''Hi'')]"]
  note i2 = session_end
    [of "[]" "[Message Laptop (Json (JObj [(''type'', JStr ''audio''), (''data'', JStr ''AAEC'')]))]" "[]" "Json (JObj [(''type'', JStr ''audio''), (''data'', JStr ''AAEC'')])" "JObj [(''type'', JStr ''unmute.input_audio_buffer.append_pcm''), (''audio'', JStr ''AAEC''), (''format'', JStr ''int16'')]"]
  note i3 = session_end [of "[Close Unmute CloseOK]" "[]" "[]" NotJson JNull]
  note i4 = session_end [of "[Close Laptop CloseOK]" "[]" "[]" NotJson JNull]
  note w1 = i1 [THEN conjunct1, THEN mp, OF b(1), THEN conjunct2, THEN conjunct2, THEN conjunct2]
  note w2 = i1 [THEN conjunct2, THEN conjunct2, THEN conjunct1, THEN mp,
    OF conjI [OF b(1) conjI [OF b(4) p]]]
  note w3 = i1 [THEN conjunct2, THEN conjunct2, THEN conjunct2, THEN conjunct2, THEN conjunct1,
    THEN mp, OF conjI [OF b(1) conjI [OF b(4) n(1)]], THEN conjunct2]
  note w4 = i2 [THEN conjunct2, THEN conjunct1, THEN mp, OF b(2),
    THEN conjunct2, THEN conjunct2, THEN conjunct2]
  note w5 = i2 [THEN conjunct2, THEN conjunct2, THEN conjunct2, THEN conjunct1, THEN mp,
    OF conjI [OF b(2) conjI [OF b(3) u]]]
  note w6 = i2 [THEN conjunct2, THEN conjunct2, THEN conjunct2, THEN conjunct2, THEN conjunct2,
    THEN conjunct1, THEN mp, OF conjI [OF b(2) conjI [OF b(3) n(2)]], THEN conjunct2]
  note w7 = i3 [THEN conjunct2, THEN conjunct2, THEN conjunct2, THEN conjunct2, THEN conjunct2,
    THEN conjunct2, THEN conjunct1, THEN mp, OF conjI [OF c(1) c(2)], THEN conjunct2]
  note w8 = i4 [THEN conjunct2, THEN conjunct2, THEN conjunct2, THEN conjunct2, THEN conjunct2,
    THEN conjunct2, THEN conjunct2, THEN mp, OF conjI [OF d(1) d(2)], THEN conjunct2]
  have l1: "logged (relay [Close Laptop CloseError, Message Unmute (Json (JObj [(''type'', JStr ''response.text.delta''), (''delta'', JStr ''Hi'')]))]) =
     [ErrorForwardingResponse ConnectionClosedError]"
    using w2 by (simp add: relay_def bridge_active_def)
  have l2: "logged (relay [Close Unmute CloseError, Message Laptop (Json (JObj [(''type'', JStr ''audio''), (''data'', JStr ''AAEC'')]))]) =
     [ErrorForwardingAudio ConnectionClosedError]"
    using w5 by (simp add: relay_def bridge_active_def)
  show ?thesis
    using w1 w3 w4 w6 w7 w8 l1 l2 by (simp add: e del: run_bridge.simps(2-4))
qed

lemma waits_attempt_ends:
  "attempt_ends a \<Longrightarrow>
   waits acc (run_bridge (a # as)) =
     acc # waits (if ends_with_exception a then 3 else 0) (run_bridge as)"
  by (cases a) (auto split: task.splits)

lemma waits_first:
  "\<exists>ws. waits acc (run_bridge (b # post)) = acc # ws"
  by (cases b) simp_all

lemma run_bridge_append:
  "list_all attempt_ends as \<Longrightarrow> run_bridge (as @ bs) = run_bridge as @ run_bridge bs"
proof (induction as)
  case Nil
  show ?case by simp
next
  case (Cons a as)
  then show ?case
    by (cases a) (auto split: task.splits)
qed

lemma last_run_bridge:
  "ends_with_exception a \<Longrightarrow> last (run_bridge [a]) = Sleep 3"
  by (cases a) (auto split: task.splits)

lemma waits_after_exception:
  "list_all attempt_ends pre \<Longrightarrow> ends_with_exception a \<Longrightarrow>
   length pre + 2 \<le> length (waits acc (run_bridge (pre @ a # b # post))) \<and>
   waits acc (run_bridge (pre @ a # b # post)) ! (length pre + 1) = 3"
proof (induction pre arbitrary: acc)
  case Nil
  obtain ws where ws: "waits 3 (run_bridge (b # post)) = 3 # ws"
    using waits_first [of 3 b post] by blast
  have "attempt_ends a"
    using Nil.prems(2) by (cases a) (auto split: task.splits)
  then have "waits acc (run_bridge (a # b # post)) = acc # 3 # ws"
    using Nil.prems(2) ws by (simp add: waits_attempt_ends del: run_bridge.simps)
  then show ?case by simp
next
  case (Cons p pre)
  let ?k = "if ends_with_exception p then 3 else 0 :: nat"
  have "waits acc (run_bridge ((p # pre) @ a # b # post)) =
      acc # waits ?k (run_bridge (pre @ a # b # post))"
    using Cons.prems(1) by (simp add: waits_attempt_ends del: run_bridge.simps)
  moreover have "length pre + 2 \<le> length (waits ?k (run_bridge (pre @ a # b # post))) \<and>
      waits ?k (run_bridge (pre @ a # b # post)) ! (length pre + 1) = 3"
    using Cons.IH [of ?k] Cons.prems by simp
  ultimately show ?case by simp
qed

subsection \<open>The wait before a new connect attempt\<close>

text \<open>
  Claim C8 says that the wait of 3 comes after every failed connect attempt and after every
  ended session. The \<^verbatim>\<open>sleep\<close> is in the \<^verbatim>\<open>except\<close> branch only. Here both peers close
  normally, both loops return, \<^verbatim>\<open>gather\<close> returns, and the next connect attempt follows
  the end of the session with no sleep in between.
\<close>

theorem backoff_counterexample:
  "run_bridge [BridgeActive [Close Laptop CloseOK, Close Unmute CloseOK], LaptopConnectFails] =
     [Connect Laptop, Connect Unmute, CloseWs Unmute, CloseWs Laptop, Connect Laptop, Sleep 3] \<and>
   waits 0 (run_bridge [BridgeActive [Close Laptop CloseOK, Close Unmute CloseOK], LaptopConnectFails]) =
     [0, 0]"
  by (simp add: relay_def bridge_active_def)

text \<open>
  Claim C8, as the code has it. Take any passes \<open>pre\<close> through the reconnect loop that
  end, in whatever way, and a pass \<open>a\<close> after them that ends with an exception (a failed
  \<^verbatim>\<open>connect\<close>, or a session whose \<^verbatim>\<open>gather\<close> raises). Then the trace of \<open>a\<close> ends with a
  sleep of 3, the loop is back at its start and handles the passes that follow as if they
  were the first, and the connect attempt of the pass after \<open>a\<close> takes place and comes
  after a wait of exactly 3.
\<close>

theorem backoff_after_exception:
  "list_all attempt_ends pre \<and> ends_with_exception a \<longrightarrow>
     run_bridge (pre @ a # post) = run_bridge pre @ run_bridge [a] @ run_bridge post \<and>
     last (run_bridge [a]) = Sleep 3 \<and>
     length pre + 2 \<le> length (waits 0 (run_bridge (pre @ a # b # post))) \<and>
     waits 0 (run_bridge (pre @ a # b # post)) ! (length pre + 1) = 3"
proof (intro impI, elim conjE)
  assume h: "list_all attempt_ends pre" "ends_with_exception a"
  have ea: "attempt_ends a"
    using h(2) by (cases a) (auto split: task.splits)
  have "run_bridge (pre @ [a] @ post) = run_bridge pre @ run_bridge ([a] @ post)"
    using h(1) by (rule run_bridge_append)
  moreover have "run_bridge ([a] @ post) = run_bridge [a] @ run_bridge post"
    using ea by (intro run_bridge_append) simp
  ultimately have 1: "run_bridge (pre @ a # post) = run_bridge pre @ run_bridge [a] @ run_bridge post"
    by simp
  show "run_bridge (pre @ a # post) = run_bridge pre @ run_bridge [a] @ run_bridge post \<and>
     last (run_bridge [a]) = Sleep 3 \<and>
     length pre + 2 \<le> length (waits 0 (run_bridge (pre @ a # b # post))) \<and>
     waits 0 (run_bridge (pre @ a # b # post)) ! (length pre + 1) = 3"
    using 1 last_run_bridge [OF h(2)] waits_after_exception [OF h, of 0 b post]
    by (intro conjI) (elim conjE, assumption)+
qed

theorem backoff_after_exception_witness:
  "waits 0 (run_bridge
     [BridgeActive [Close Laptop CloseOK, Close Unmute CloseOK],
      LaptopConnectFails, UnmuteConnectFails, BridgeActive [Close Unmute CloseError],
      LaptopConnectFails]) = [0, 0, 3, 3, 3] \<and>
   waits 0 (run_bridge
     [BridgeActive [Close Laptop CloseOK, Close Unmute CloseOK],
      LaptopConnectFails, UnmuteConnectFails, BridgeActive [Close Unmute CloseError],
      LaptopConnectFails]) ! 2 = 3 \<and>
   run_bridge
     ([BridgeActive [Close Laptop CloseOK, Close Unmute CloseOK]] @
      LaptopConnectFails # [BridgeActive [Close Unmute CloseError], LaptopConnectFails]) =
     run_bridge [BridgeActive [Close Laptop CloseOK, Close Unmute CloseOK]] @
     run_bridge [LaptopConnectFails] @
     run_bridge [BridgeActive [Close Unmute CloseError], LaptopConnectFails]"
proof -
  have h: "list_all attempt_ends [BridgeActive [Close Laptop CloseOK, Close Unmute CloseOK]] \<and>
      ends_with_exception LaptopConnectFails"
    by (simp add: relay_def bridge_active_def)
  have v: "waits 0 (run_bridge
     [BridgeActive [Close Laptop CloseOK, Close Unmute CloseOK],
      LaptopConnectFails, UnmuteConnectFails, BridgeActive [Close Unmute CloseError],
      LaptopConnectFails]) = [0, 0, 3, 3, 3]"
    by (simp add: relay_def bridge_active_def)
  note t1 = backoff_after_exception
    [of "[BridgeActive [Close Laptop CloseOK, Close Unmute CloseOK]]" LaptopConnectFails
        "[BridgeActive [Close Unmute CloseError], LaptopConnectFails]" UnmuteConnectFails,
     THEN mp, OF h]
  have "waits 0 (run_bridge
     ([BridgeActive [Close Laptop CloseOK, Close Unmute CloseOK]] @
      LaptopConnectFails # UnmuteConnectFails #
      [BridgeActive [Close Unmute CloseError], LaptopConnectFails])) !
      (length [BridgeActive [Close Laptop CloseOK, Close Unmute CloseOK]] + 1) = 3"
    using t1 by (elim conjE)
  then have i: "waits 0 (run_bridge
     [BridgeActive [Close Laptop CloseOK, Close Unmute CloseOK],
      LaptopConnectFails, UnmuteConnectFails, BridgeActive [Close Unmute CloseError],
      LaptopConnectFails]) ! 2 = 3"
    by (simp add: numeral_2_eq_2 del: run_bridge.simps)
  show ?thesis
    using v i t1 [THEN conjunct1] by (intro conjI)
qed

end
